theory Spec2Isabelle
  imports Main "HOL-Library.Word" "HOL-Library.Signed_Division"
begin

section \<open>Template helper functions (funcs.go)\<close>

text \<open>
  Go's \<^verbatim>\<open>int\<close> is taken as the 64-bit two's complement integer of the usual
  targets. The operator \<^verbatim>\<open>%\<close> truncates towards zero (the sign of the result is
  the sign of the dividend) and panics when the divisor is zero; the panic is a value
  of the model.
\<close>

type_synonym go_int = "64 word"

datatype panic = DivideByZero

definition go_rem :: "go_int \<Rightarrow> go_int \<Rightarrow> panic + go_int" where
  "go_rem a b =
     (if b = 0 then Inl DivideByZero
      else Inr (word_of_int (sint a smod sint b)))"

text \<open>\<^verbatim>\<open>func mod(a, b int) int\<close>, registered as \<^verbatim>\<open>num_mod\<close>.\<close>

definition mod' :: "go_int \<Rightarrow> go_int \<Rightarrow> panic + go_int" where
  "mod' a b = (if b = 0 then Inr 0 else go_rem a b)"


section \<open>Strings and paths (Go's strings and path packages)\<close>

text \<open>
  Go strings are byte sequences; \<^typ>\<open>string\<close> is a list of bytes, so lengths and
  indices agree.
\<close>

definition HasPrefix :: "string \<Rightarrow> string \<Rightarrow> bool" where
  "HasPrefix s pre = (length pre \<le> length s \<and> take (length pre) s = pre)"

definition HasSuffix :: "string \<Rightarrow> string \<Rightarrow> bool" where
  "HasSuffix s suf = (length suf \<le> length s \<and> drop (length s - length suf) s = suf)"

definition TrimPrefix :: "string \<Rightarrow> string \<Rightarrow> string" where
  "TrimPrefix s pre = (if HasPrefix s pre then drop (length pre) s else s)"

definition TrimSuffix :: "string \<Rightarrow> string \<Rightarrow> string" where
  "TrimSuffix s suf = (if HasSuffix s suf then take (length s - length suf) s else s)"

text \<open>
  \<^verbatim>\<open>path.Ext\<close>: the loop \<^verbatim>\<open>for i := len(path)-1; i >= 0 && path[i] != '/'; i--\<close>
  returns \<^verbatim>\<open>path[i:]\<close> at the first dot it meets. The counter of \<open>Ext_loop\<close> is
  \<open>i + 1\<close>.
\<close>

fun Ext_loop :: "string \<Rightarrow> nat \<Rightarrow> string" where
  "Ext_loop p 0 = []"
| "Ext_loop p (Suc i) =
     (if p ! i = CHR ''/'' then []
      else if p ! i = CHR ''.'' then drop i p
      else Ext_loop p i)"

definition Ext :: "string \<Rightarrow> string" where
  "Ext p = Ext_loop p (length p)"

text \<open>\<^verbatim>\<open>strings.Split(s, sep)\<close> for a one-byte separator: never the empty list.\<close>

fun Split :: "string \<Rightarrow> char \<Rightarrow> string list" where
  "Split [] c = [[]]"
| "Split (x # xs) c =
     (if x = c then [] # Split xs c
      else (case Split xs c of
              [] \<Rightarrow> [[x]]
            | w # ws \<Rightarrow> (x # w) # ws))"


text \<open>
  \<^verbatim>\<open>path.Clean\<close>, element by element: empty and \<^verbatim>\<open>.\<close> elements are dropped, a
  \<^verbatim>\<open>..\<close> element removes the real element before it, is dropped at the root of a
  rooted path and is kept otherwise. \<open>out\<close> is the list of elements written so far.
\<close>

definition Clean_step :: "bool \<Rightarrow> string \<Rightarrow> string list \<Rightarrow> string list" where
  "Clean_step rooted elem out =
     (if elem = [] \<or> elem = ''.'' then out
      else if elem = ''..'' then
        (if out \<noteq> [] \<and> last out \<noteq> ''..'' then butlast out
         else if rooted then out
         else out @ [''..''])
      else out @ [elem])"

fun join_slash :: "string list \<Rightarrow> string" where
  "join_slash [] = []"
| "join_slash [x] = x"
| "join_slash (x # xs) = x @ CHR ''/'' # join_slash xs"

definition Clean :: "string \<Rightarrow> string" where
  "Clean p =
     (if p = [] then ''.''
      else
        let rooted = (hd p = CHR ''/'');
            out = fold (Clean_step rooted) (Split p CHR ''/'') [];
            res = (if rooted then ''/'' else []) @ join_slash out
        in if res = [] then ''.'' else res)"

text \<open>\<^verbatim>\<open>path.Join\<close> of two elements: empty elements are ignored, the result is cleaned.\<close>

definition Join :: "string \<Rightarrow> string \<Rightarrow> string" where
  "Join a b =
     (if a = [] \<and> b = [] then []
      else Clean (if a = [] then b else a @ ''/'' @ b))"

section \<open>Template sources: read-only file trees (io/fs)\<close>

text \<open>
  A source's file system is a finite tree. A directory lists its entries in the order
  \<^verbatim>\<open>ReadDir\<close> returns them. \<open>Locked\<close> is a regular file whose content cannot be
  read and \<open>LockedDir\<close> a directory that cannot be listed, so that the I/O failures the
  manager handles are values of the model.
\<close>

datatype fnode = File string | Locked | Dir "(string \<times> fnode) list" | LockedDir

datatype ioerr = ErrInvalid | ErrNotExist | ErrPermission | ErrIsDir

record TemplateSource =
  Name :: string
  FS :: fnode

text \<open>\<^verbatim>\<open>fs.ValidPath\<close> (UTF-8 validity apart).\<close>

definition ValidPath :: "string \<Rightarrow> bool" where
  "ValidPath name =
     (name = ''.'' \<or>
      list_all (\<lambda>elem. \<not> (elem = [] \<or> elem = ''.'' \<or> elem = ''..'')) (Split name CHR ''/''))"

fun find_node :: "fnode \<Rightarrow> string list \<Rightarrow> fnode option" where
  "find_node n [] = Some n"
| "find_node (Dir es) (k # ks) =
     (case map_of es k of None \<Rightarrow> None | Some c \<Rightarrow> find_node c ks)"
| "find_node n (k # ks) = None"

text \<open>\<^verbatim>\<open>fs.Stat\<close>: the node a path names.\<close>

definition Stat :: "fnode \<Rightarrow> string \<Rightarrow> ioerr + fnode" where
  "Stat fsys name =
     (if \<not> ValidPath name then Inl ErrInvalid
      else if name = ''.'' then Inr fsys
      else (case find_node fsys (Split name CHR ''/'') of
              None \<Rightarrow> Inl ErrNotExist
            | Some n \<Rightarrow> Inr n))"

definition ReadFile :: "fnode \<Rightarrow> string \<Rightarrow> ioerr + string" where
  "ReadFile fsys name =
     (case Stat fsys name of
        Inl e \<Rightarrow> Inl e
      | Inr (File content) \<Rightarrow> Inr content
      | Inr Locked \<Rightarrow> Inl ErrPermission
      | Inr (Dir es) \<Rightarrow> Inl ErrIsDir
      | Inr LockedDir \<Rightarrow> Inl ErrIsDir)"

text \<open>
  \<^verbatim>\<open>fs.WalkDir\<close> calls its function once per entry, in pre-order, with the entry's
  path and kind, and once more with the error when a directory cannot be listed; when
  the root cannot be found it calls it once, with the error of \<^verbatim>\<open>Stat\<close>. The callback
  of the manager never asks to skip a directory, so the calls a walk makes, until the
  callback fails, are a list.
\<close>

datatype walk_event = Visit string bool | WalkErr string ioerr

fun walkDir :: "string \<Rightarrow> fnode \<Rightarrow> walk_event list"
  and walkDir_entries :: "string \<Rightarrow> (string \<times> fnode) list \<Rightarrow> walk_event list" where
  "walkDir name (File content) = [Visit name False]"
| "walkDir name Locked = [Visit name False]"
| "walkDir name LockedDir = [Visit name True, WalkErr name ErrPermission]"
| "walkDir name (Dir es) = Visit name True # walkDir_entries name es"
| "walkDir_entries name [] = []"
| "walkDir_entries name (e # es) =
     walkDir (Join name (fst e)) (snd e) @ walkDir_entries name es"

definition WalkDir :: "fnode \<Rightarrow> string \<Rightarrow> walk_event list" where
  "WalkDir fsys root =
     (case Stat fsys root of
        Inl err \<Rightarrow> [WalkErr root err]
      | Inr n \<Rightarrow> walkDir root n)"

text \<open>
  Running the callback over the calls of a walk: the first error stops the walk and is
  its result.
\<close>

fun walk_all :: "(walk_event \<Rightarrow> 's \<Rightarrow> 'e option \<times> 's) \<Rightarrow> walk_event list \<Rightarrow> 's \<Rightarrow> 'e option \<times> 's" where
  "walk_all fn [] st = (None, st)"
| "walk_all fn (ev # evs) st =
     (case fn ev st of
        (Some err, st') \<Rightarrow> (Some err, st')
      | (None, st') \<Rightarrow> walk_all fn evs st')"

section \<open>The template engine (html/template), as the manager uses it\<close>

text \<open>
  The engine is not part of the repository; the manager is verified for any engine of
  the following shape. A template collection maps a template name to its definition.
  \<open>Parse eng name text\<close> is the parsing step of \<^verbatim>\<open>t.New(name).Parse(text)\<close>: it
  fails (\<open>None\<close>), or yields the definitions the text makes, which are the text's own
  body under \<open>name\<close> and one per \<^verbatim>\<open>{{define}}\<close> block. \<open>IsEmptyTree eng b\<close> says
  that a body is empty (nothing but white space and comments), as the body of a file
  that consists of \<^verbatim>\<open>{{define}}\<close> blocks is. \<open>Execute eng t name data\<close> is
  \<^verbatim>\<open>t.ExecuteTemplate(&buf, name, data)\<close> with the buffer's content as result.
  \<^verbatim>\<open>t.Clone()\<close> copies a collection that was never executed, which holds for the base
  collections; collections are values, so the copy is the collection itself. The
  function map given to \<^verbatim>\<open>Funcs\<close> is part of the engine.
\<close>

type_synonym 'b tset = "string \<rightharpoonup> 'b"

record ('b, 'd) engine =
  Parse :: "string \<Rightarrow> string \<Rightarrow> (string \<times> 'b) list option"
  IsEmptyTree :: "'b \<Rightarrow> bool"
  Execute :: "'b tset \<Rightarrow> string \<Rightarrow> 'd \<Rightarrow> string option"

text \<open>
  Writing one parsed definition into a collection, as the engine does for every
  definition of a successful parse: a name the collection does not have is defined,
  with an empty body too; a name it has is given the new body, unless the new body is
  empty, in which case the collection keeps what it has. The definition gives the
  collection afterwards name by name. A failed parse makes no definition; the model
  takes it to leave the collection as it was, and no statement below reads, after a
  failed parse, the name that was being parsed.
\<close>

definition associate :: "('b, 'd) engine \<Rightarrow> string \<times> 'b \<Rightarrow> 'b tset \<Rightarrow> 'b tset" where
  "associate eng d t name =
     (if name = fst d then
        (case t name of
           None \<Rightarrow> Some (snd d)
         | Some old \<Rightarrow> if IsEmptyTree eng (snd d) then Some old else Some (snd d))
      else t name)"

definition define_all :: "('b, 'd) engine \<Rightarrow> 'b tset \<Rightarrow> (string \<times> 'b) list \<Rightarrow> 'b tset" where
  "define_all eng t defs = fold (associate eng) defs t"

section \<open>Naming resolver (manager.go)\<close>

definition LayoutsDir :: string where "LayoutsDir = ''layouts''"
definition PartialsDir :: string where "PartialsDir = ''partials''"
definition ComponentsDir :: string where "ComponentsDir = ''components''"
definition EmailsDir :: string where "EmailsDir = ''emails''"

text \<open>
  \<^verbatim>\<open>TemplateFormat\<close> is a string type with the two constants below; the empty
  string that \<^verbatim>\<open>formatFromFile\<close> returns for any other extension is \<open>None\<close>.
\<close>

datatype TemplateFormat = FormatText | FormatHTML

definition formatFromFile :: "string \<Rightarrow> TemplateFormat option" where
  "formatFromFile filename =
     (let ext = Ext filename in
      if ext = ''.html'' then Some FormatHTML
      else if ext = ''.txt'' then Some FormatText
      else None)"

fun Extension :: "TemplateFormat \<Rightarrow> string" where
  "Extension FormatHTML = ''.html''"
| "Extension FormatText = ''.txt''"

text \<open>The string value of a format, as \<^verbatim>\<open>%s\<close> prints it in the cache key.\<close>

fun format_string :: "TemplateFormat \<Rightarrow> string" where
  "format_string FormatText = ''text''"
| "format_string FormatHTML = ''html''"

definition templateName :: "string \<Rightarrow> string \<Rightarrow> string" where
  "templateName rootDir filePath =
     (let name = TrimPrefix filePath rootDir;
          name = TrimPrefix name ''/'';
          name = TrimSuffix name (Ext name)
      in if rootDir = LayoutsDir then ''layout:'' @ name
         else if rootDir = ComponentsDir then ''component:'' @ name
         else if rootDir = PartialsDir then ''partial:'' @ name
         else name)"

section \<open>Theme accessor (theme table and GetThemeValue)\<close>

text \<open>
  The values a theme holds (\<^verbatim>\<open>any\<close>): nil, a scalar, or a nested
  \<^verbatim>\<open>map[string]any\<close>. A Go map has one value per key; it is an association list read
  with \<^const>\<open>map_of\<close>, and indexing a missing key gives nil, the zero value.
\<close>

datatype any = VNil | VStr string | VInt int | VMap "(string \<times> any) list"

definition index :: "(string \<times> any) list \<Rightarrow> string \<Rightarrow> any" where
  "index m k = (case map_of m k of None \<Rightarrow> VNil | Some v \<Rightarrow> v)"

text \<open>
  The loop \<^verbatim>\<open>for i, part := range parts\<close>: the last part (\<^verbatim>\<open>i == len(parts)-1\<close>)
  is read from the current map; every other part must hold a map, which becomes the
  current one. The first equation is the \<^verbatim>\<open>return nil\<close> after the loop.
\<close>

fun GetThemeValue_loop :: "(string \<times> any) list \<Rightarrow> string list \<Rightarrow> any" where
  "GetThemeValue_loop current [] = VNil"
| "GetThemeValue_loop current [part] = index current part"
| "GetThemeValue_loop current (part # rest) =
     (case index current part of
        VMap next \<Rightarrow> GetThemeValue_loop next rest
      | _ \<Rightarrow> VNil)"

definition GetThemeValue :: "(string \<times> any) list \<Rightarrow> string \<Rightarrow> any" where
  "GetThemeValue theme path =
     (if path = [] then VNil
      else GetThemeValue_loop theme (Split path CHR ''.''))"

definition DefaultTheme :: "(string \<times> any) list" where
  "DefaultTheme =
    [(''colors'', VMap
       [(''primary'', VStr ''#4DA647''),
        (''secondary'', VStr ''#30C3E6''),
        (''success'', VStr ''#4caf50''),
        (''danger'', VStr ''#f44336''),
        (''warning'', VStr ''#ffa500''),
        (''text'', VMap
           [(''primary'', VStr ''#333333''),
            (''secondary'', VStr ''#666666''),
            (''muted'', VStr ''#999999'')]),
        (''background'', VMap
           [(''primary'', VStr ''#ffffff''),
            (''secondary'', VStr ''#f8f8f8'')]),
        (''border'', VStr ''#dddddd'')]),
     (''typography'', VMap
       [(''font'', VMap
           [(''family'', VStr ''Arial, sans-serif''),
            (''size'', VMap
               [(''xs'', VStr ''12px''),
                (''sm'', VStr ''14px''),
                (''base'', VStr ''16px''),
                (''lg'', VStr ''18px''),
                (''xl'', VStr ''24px'')]),
            (''lineHeight'', VMap
               [(''tight'', VStr ''18px''),
                (''normal'', VStr ''21px''),
                (''relaxed'', VStr ''24px''),
                (''loose'', VStr ''30px'')]),
            (''weight'', VMap
               [(''normal'', VStr ''400''),
                (''medium'', VStr ''500''),
                (''bold'', VStr ''700'')]),
            (''letterSpacing'', VStr ''.25px'')])]),
     (''spacing'', VMap
       [(''0'', VStr ''0''),
        (''1'', VStr ''5px''),
        (''2'', VStr ''10px''),
        (''3'', VStr ''15px''),
        (''4'', VStr ''20px''),
        (''5'', VStr ''30px''),
        (''6'', VStr ''40px'')]),
     (''borders'', VMap
       [(''width'', VStr ''1px''),
        (''style'', VStr ''solid''),
        (''radius'', VMap
           [(''sm'', VStr ''3px''),
            (''md'', VStr ''4px''),
            (''lg'', VStr ''8px'')])]),
     (''components'', VMap
       [(''button'', VMap
           [(''padding'', VMap
               [(''x'', VStr ''24px''),
                (''y'', VStr ''12px'')]),
            (''textTransform'', VStr ''uppercase'')]),
        (''card'', VMap
           [(''padding'', VStr ''20px''),
            (''shadow'', VStr ''none'')]),
        (''table'', VMap
           [(''cell'', VMap
               [(''padding'', VStr ''12px 15px'')])]),
        (''notification'', VMap
           [(''padding'', VStr ''15px''),
            (''borderWidth'', VStr ''4px'')]),
        (''logo'', VMap
           [(''maxWidth'', VStr ''200px''),
            (''padding'', VStr ''30px'')])]),
     (''layout'', VMap
       [(''maxWidth'', VStr ''600px''),
        (''gutter'', VStr ''20px'')])]"

text \<open>
  The contract of the lookup in the words of the specification: walk the nested mapping
  along the segments before the last one, which fails when a segment is absent or does
  not hold a mapping.
\<close>

fun walk_segments :: "(string \<times> any) list \<Rightarrow> string list \<Rightarrow> (string \<times> any) list option" where
  "walk_segments m [] = Some m"
| "walk_segments m (k # ks) =
     (case index m k of
        VMap m' \<Rightarrow> walk_segments m' ks
      | _ \<Rightarrow> None)"

section \<open>The template manager (manager.go)\<close>

text \<open>
  Errors are values. The constructors follow the \<^verbatim>\<open>fmt.Errorf\<close> calls of the
  manager; an error of the engine is opaque, so \<open>ParseFailed\<close> keeps the file and
  \<open>EngineParseError\<close>, \<open>RenderTextFailed\<close>, \<open>RenderHTMLFailed\<close> and
  \<open>ProcessFailed\<close> keep nothing of it.
\<close>

datatype error =
    WalkFailed string ioerr
  | ReadFailed string ioerr
  | ParseFailed string
  | LoadLayoutsFailed string error
  | LoadComponentsFailed string error
  | LoadPartialsFailed string error
  | EngineParseError
  | TemplateNotFound string
  | RenderTextFailed
  | RenderHTMLFailed
  | ProcessFailed
  | NoTemplatesFound string
  | AddBuiltinFailed error
  | AddSourceFailed string error

text \<open>
  The manager. The locks are left out: the model is of one caller at a time. The
  function map is part of the engine. \<open>processor\<close> is an interface value, nil or an
  implementation of \<^verbatim>\<open>Process\<close>.
\<close>

record 'b Manager =
  processor :: "(string \<Rightarrow> string option) option"
  defaultLayout :: string
  sources :: "TemplateSource list"
  theme :: "(string \<times> any) list"
  baseTemplates :: "TemplateFormat \<Rightarrow> 'b tset"
  emailCache :: "string \<rightharpoonup> 'b tset"

record ManagerConfig =
  Processor :: "(string \<Rightarrow> string option) option"
  Sources :: "TemplateSource list"
  Theme :: "(string \<times> any) list option"
  DefaultLayout :: string

definition DefaultProcessor_Process :: "string \<Rightarrow> string option" where
  "DefaultProcessor_Process html = Some html"

text \<open>The function \<^verbatim>\<open>loadDirectory\<close> gives to \<^verbatim>\<open>fs.WalkDir\<close>.\<close>

fun loadDirectory_fn ::
  "('b, 'd) engine \<Rightarrow> TemplateSource \<Rightarrow> string \<Rightarrow> walk_event \<Rightarrow> 'b Manager
     \<Rightarrow> error option \<times> 'b Manager" where
  "loadDirectory_fn eng source rootDir (WalkErr filePath err) m =
     (if err = ErrNotExist then (None, m)
      else (Some (WalkFailed filePath err), m))"
| "loadDirectory_fn eng source rootDir (Visit filePath True) m = (None, m)"
| "loadDirectory_fn eng source rootDir (Visit filePath False) m =
     (case formatFromFile filePath of
        None \<Rightarrow> (None, m)
      | Some format \<Rightarrow>
          (case ReadFile (FS source) filePath of
             Inl err \<Rightarrow> (Some (ReadFailed filePath err), m)
           | Inr content \<Rightarrow>
               (let name = templateName rootDir filePath;
                    base = baseTemplates m format
                in case Parse eng name content of
                     None \<Rightarrow> (Some (ParseFailed filePath), m)
                   | Some defs \<Rightarrow>
                       (None, m\<lparr>baseTemplates :=
                                 (baseTemplates m)(format := define_all eng base defs)\<rparr>))))"

definition loadDirectory ::
  "('b, 'd) engine \<Rightarrow> TemplateSource \<Rightarrow> string \<Rightarrow> 'b Manager \<Rightarrow> error option \<times> 'b Manager" where
  "loadDirectory eng source rootDir m =
     walk_all (loadDirectory_fn eng source rootDir) (WalkDir (FS source) rootDir) m"

text \<open>The loop of \<^verbatim>\<open>loadBaseTemplates\<close> over the sources, in order.\<close>

fun loadBaseTemplates_loop ::
  "('b, 'd) engine \<Rightarrow> TemplateSource list \<Rightarrow> 'b Manager \<Rightarrow> error option \<times> 'b Manager" where
  "loadBaseTemplates_loop eng [] m = (None, m)"
| "loadBaseTemplates_loop eng (source # rest) m =
     (case loadDirectory eng source LayoutsDir m of
        (Some err, m1) \<Rightarrow> (Some (LoadLayoutsFailed (Name source) err), m1)
      | (None, m1) \<Rightarrow>
          (case loadDirectory eng source ComponentsDir m1 of
             (Some err, m2) \<Rightarrow> (Some (LoadComponentsFailed (Name source) err), m2)
           | (None, m2) \<Rightarrow>
               (case loadDirectory eng source PartialsDir m2 of
                  (Some err, m3) \<Rightarrow> (Some (LoadPartialsFailed (Name source) err), m3)
                | (None, m3) \<Rightarrow> loadBaseTemplates_loop eng rest m3)))"

definition loadBaseTemplates ::
  "('b, 'd) engine \<Rightarrow> 'b Manager \<Rightarrow> error option \<times> 'b Manager" where
  "loadBaseTemplates eng m =
     loadBaseTemplates_loop eng (sources m) (m\<lparr>baseTemplates := (\<lambda>format. Map.empty)\<rparr>)"

definition AddSource ::
  "('b, 'd) engine \<Rightarrow> TemplateSource \<Rightarrow> 'b Manager \<Rightarrow> error option \<times> 'b Manager" where
  "AddSource eng source m =
     loadBaseTemplates eng (m\<lparr>sources := sources m @ [source], emailCache := Map.empty\<rparr>)"

definition ClearCache :: "'b Manager \<Rightarrow> 'b Manager" where
  "ClearCache m = m\<lparr>emailCache := Map.empty\<rparr>"

text \<open>
  The search of \<^verbatim>\<open>getEmailTemplate\<close>:
  \<^verbatim>\<open>for i := len(m.sources) - 1; i >= 0; i--\<close>. The counter is \<open>i + 1\<close>; the result
  is the error of a failed parse, or the clone with the document parsed in when a
  source has the file, or \<open>None\<close> when the loop ends with \<^verbatim>\<open>found\<close> false.
\<close>

fun getEmailTemplate_loop ::
  "('b, 'd) engine \<Rightarrow> string \<Rightarrow> string \<Rightarrow> 'b tset \<Rightarrow> TemplateSource list \<Rightarrow> nat
     \<Rightarrow> error + 'b tset option" where
  "getEmailTemplate_loop eng name filename tmpl srcs 0 = Inr None"
| "getEmailTemplate_loop eng name filename tmpl srcs (Suc i) =
     (case ReadFile (FS (srcs ! i)) filename of
        Inr content \<Rightarrow>
          (case Parse eng name content of
             None \<Rightarrow> Inl EngineParseError
           | Some defs \<Rightarrow> Inr (Some (define_all eng tmpl defs)))
      | Inl err \<Rightarrow> getEmailTemplate_loop eng name filename tmpl srcs i)"

definition cacheKey :: "TemplateFormat \<Rightarrow> string \<Rightarrow> string \<Rightarrow> string" where
  "cacheKey format name layout = format_string format @ '':'' @ name @ '':'' @ layout"

definition emailFile :: "string \<Rightarrow> TemplateFormat \<Rightarrow> string" where
  "emailFile name format = Join EmailsDir (name @ Extension format)"

definition getEmailTemplate ::
  "('b, 'd) engine \<Rightarrow> string \<Rightarrow> string \<Rightarrow> TemplateFormat \<Rightarrow> 'b Manager
     \<Rightarrow> (error + 'b tset) \<times> 'b Manager" where
  "getEmailTemplate eng name layout format m =
     (case emailCache m (cacheKey format name layout) of
        Some tmpl \<Rightarrow> (Inr tmpl, m)
      | None \<Rightarrow>
          (let base = baseTemplates m format;
               tmpl = base;
               filename = emailFile name format
           in case getEmailTemplate_loop eng name filename tmpl (sources m) (length (sources m)) of
                Inl err \<Rightarrow> (Inl err, m)
              | Inr None \<Rightarrow> (Inl (TemplateNotFound filename), m)
              | Inr (Some tmpl') \<Rightarrow>
                  (Inr tmpl',
                   m\<lparr>emailCache := (emailCache m)(cacheKey format name layout \<mapsto> tmpl')\<rparr>)))"

definition executeTemplate :: "('b, 'd) engine \<Rightarrow> 'b tset \<Rightarrow> string \<Rightarrow> 'd \<Rightarrow> string option" where
  "executeTemplate eng t name data = Execute eng t name data"

record RenderedEmail =
  Subject :: string
  Text :: string
  HTML :: string

text \<open>
  The two blocks of \<^verbatim>\<open>RenderEmail\<close>, each run on the outcome of resolving its
  format: a format that did not resolve leaves the email as it is; a failure of the
  execution, or of the processor, is the error \<^verbatim>\<open>RenderEmail\<close> returns at once.
\<close>

definition render_text ::
  "('b, 'd) engine \<Rightarrow> 'd \<Rightarrow> RenderedEmail \<Rightarrow> error + 'b tset \<Rightarrow> error + RenderedEmail" where
  "render_text eng data email rt =
     (case rt of
        Inr tmpl \<Rightarrow>
          (case executeTemplate eng tmpl ''layout'' data of
             None \<Rightarrow> Inl RenderTextFailed
           | Some text \<Rightarrow> Inr (email\<lparr>Text := text\<rparr>))
      | Inl err \<Rightarrow> Inr email)"

definition render_html ::
  "('b, 'd) engine \<Rightarrow> (string \<Rightarrow> string option) option \<Rightarrow> 'd \<Rightarrow> RenderedEmail
     \<Rightarrow> error + 'b tset \<Rightarrow> error + RenderedEmail" where
  "render_html eng proc data email rh =
     (case rh of
        Inr tmpl \<Rightarrow>
          (case executeTemplate eng tmpl ''layout'' data of
             None \<Rightarrow> Inl RenderHTMLFailed
           | Some html \<Rightarrow>
               (case proc of
                  None \<Rightarrow> Inr (email\<lparr>HTML := html\<rparr>)
                | Some process \<Rightarrow>
                    (case process html of
                       None \<Rightarrow> Inl ProcessFailed
                     | Some html' \<Rightarrow> Inr (email\<lparr>HTML := html'\<rparr>))))
      | Inl err \<Rightarrow> Inr email)"

definition RenderEmail ::
  "('b, 'd) engine \<Rightarrow> string \<Rightarrow> 'd \<Rightarrow> string \<Rightarrow> 'b Manager
     \<Rightarrow> (error + RenderedEmail) \<times> 'b Manager" where
  "RenderEmail eng name data layout0 m =
     (let layout = (if layout0 = [] then defaultLayout m else layout0);
          email = \<lparr>Subject = [], Text = [], HTML = []\<rparr>;
          (rt, m1) = getEmailTemplate eng name layout FormatText m
      in case render_text eng data email rt of
           Inl err \<Rightarrow> (Inl err, m1)
         | Inr email1 \<Rightarrow>
             (let (rh, m2) = getEmailTemplate eng name layout FormatHTML m1
              in case render_html eng (processor m2) data email1 rh of
                   Inl err \<Rightarrow> (Inl err, m2)
                 | Inr email2 \<Rightarrow>
                     (if Text email2 = [] \<and> HTML email2 = []
                      then (Inl (NoTemplatesFound name), m2)
                      else (Inr email2, m2))))"

text \<open>
  \<^verbatim>\<open>NewManager\<close>. The embedded file system \<^verbatim>\<open>templates.FS\<close> of the built-in
  templates is the parameter \<open>builtinFS\<close>. A nil configuration is \<open>None\<close>.
\<close>

fun NewManager_loop ::
  "('b, 'd) engine \<Rightarrow> TemplateSource list \<Rightarrow> 'b Manager \<Rightarrow> error + 'b Manager" where
  "NewManager_loop eng [] m = Inr m"
| "NewManager_loop eng (source # rest) m =
     (case AddSource eng source m of
        (Some err, m') \<Rightarrow> Inl (AddSourceFailed (Name source) err)
      | (None, m') \<Rightarrow> NewManager_loop eng rest m')"

definition NewManager ::
  "('b, 'd) engine \<Rightarrow> fnode \<Rightarrow> ManagerConfig option \<Rightarrow> error + 'b Manager" where
  "NewManager eng builtinFS config0 =
     (let config = (case config0 of
                      None \<Rightarrow> \<lparr>Processor = None, Sources = [], Theme = None, DefaultLayout = []\<rparr>
                    | Some c \<Rightarrow> c);
          config = (if Processor config = None
                    then config\<lparr>Processor := Some DefaultProcessor_Process\<rparr> else config);
          config = (if DefaultLayout config = []
                    then config\<lparr>DefaultLayout := ''base''\<rparr> else config);
          config = (if Theme config = None
                    then config\<lparr>Theme := Some DefaultTheme\<rparr> else config);
          m = \<lparr>processor = Processor config,
               defaultLayout = DefaultLayout config,
               sources = [],
               theme = (case Theme config of Some t \<Rightarrow> t | None \<Rightarrow> []),
               baseTemplates = (\<lambda>format. Map.empty),
               emailCache = Map.empty\<rparr>
      in case AddSource eng \<lparr>Name = ''built-in'', FS = builtinFS\<rparr> m of
           (Some err, m') \<Rightarrow> Inl (AddBuiltinFailed err)
         | (None, m') \<Rightarrow> NewManager_loop eng (Sources config) m')"

section \<open>What a source declares\<close>

text \<open>
  The definitions a source contributes to the base collection of a format, read off
  its files without any state: for each file a walk of a role directory visits that has
  the format's extension, can be read and parses, the definitions its text makes under
  the file's canonical identifier. The role directories come in the order layouts,
  components, partials.
\<close>

fun fileDecls ::
  "('b, 'd) engine \<Rightarrow> TemplateSource \<Rightarrow> string \<Rightarrow> TemplateFormat \<Rightarrow> walk_event
     \<Rightarrow> (string \<times> 'b) list" where
  "fileDecls eng source rootDir format (Visit filePath False) =
     (if formatFromFile filePath = Some format then
        (case ReadFile (FS source) filePath of
           Inl err \<Rightarrow> []
         | Inr content \<Rightarrow>
             (case Parse eng (templateName rootDir filePath) content of
                None \<Rightarrow> []
              | Some defs \<Rightarrow> defs))
      else [])"
| "fileDecls eng source rootDir format ev = []"

definition dirDecls ::
  "('b, 'd) engine \<Rightarrow> TemplateSource \<Rightarrow> string \<Rightarrow> TemplateFormat \<Rightarrow> (string \<times> 'b) list" where
  "dirDecls eng source rootDir format =
     concat (map (fileDecls eng source rootDir format) (WalkDir (FS source) rootDir))"

definition sourceDecls ::
  "('b, 'd) engine \<Rightarrow> TemplateSource \<Rightarrow> TemplateFormat \<Rightarrow> (string \<times> 'b) list" where
  "sourceDecls eng source format =
     dirDecls eng source LayoutsDir format @
     dirDecls eng source ComponentsDir format @
     dirDecls eng source PartialsDir format"

text \<open>The last definition a list of declarations gives for an identifier.\<close>

definition lastDef :: "(string \<times> 'b) list \<Rightarrow> string \<Rightarrow> 'b option" where
  "lastDef defs ident = map_of (rev defs) ident"

text \<open>
  The declarations with a body that is not empty, and the definition a list of
  declarations leaves in a collection that was empty: the last one that is not empty,
  and the first one when all are empty.
\<close>

definition nonempty :: "('b, 'd) engine \<Rightarrow> (string \<times> 'b) list \<Rightarrow> (string \<times> 'b) list" where
  "nonempty eng defs = filter (\<lambda>d. \<not> IsEmptyTree eng (snd d)) defs"

definition finalDef :: "('b, 'd) engine \<Rightarrow> (string \<times> 'b) list \<Rightarrow> string \<Rightarrow> 'b option" where
  "finalDef eng defs ident =
     (case lastDef (nonempty eng defs) ident of
        Some b \<Rightarrow> Some b
      | None \<Rightarrow> map_of defs ident)"

definition declares ::
  "('b, 'd) engine \<Rightarrow> TemplateSource \<Rightarrow> TemplateFormat \<Rightarrow> string \<Rightarrow> bool" where
  "declares eng source format ident =
     (ident \<in> set (map fst (sourceDecls eng source format)))"

definition declares_body ::
  "('b, 'd) engine \<Rightarrow> TemplateSource \<Rightarrow> TemplateFormat \<Rightarrow> string \<Rightarrow> bool" where
  "declares_body eng source format ident =
     (ident \<in> set (map fst (nonempty eng (sourceDecls eng source format))))"

section \<open>A small engine and small sources, for concrete runs\<close>

text \<open>
  An engine whose definitions are strings. The text \<^verbatim>\<open>!\<close> does not parse. A text
  \<^verbatim>\<open>@name|body\<close> stands for a file that consists of one \<^verbatim>\<open>{{define "name"}}\<close>
  block: its own body is empty and it defines \<open>name\<close> as \<open>body\<close>. Any other text is
  the body of the template it is parsed as. A body \<^verbatim>\<open>>name\<close> stands for
  \<^verbatim>\<open>{{template "name" .}}\<close>: executing it yields the definition of \<open>name\<close> and
  fails when there is none. Any other body yields itself. Executing a name the
  collection does not define fails. The empty string is the empty body.
\<close>

definition toy_Parse :: "string \<Rightarrow> string \<Rightarrow> (string \<times> string) list option" where
  "toy_Parse name text =
     (if text = ''!'' then None
      else if HasPrefix text ''@'' then
        Some [(name, []),
              (takeWhile (\<lambda>c. c \<noteq> CHR ''|'') (drop 1 text),
               drop 1 (dropWhile (\<lambda>c. c \<noteq> CHR ''|'') text))]
      else Some [(name, text)])"

definition toy_Execute :: "string tset \<Rightarrow> string \<Rightarrow> unit \<Rightarrow> string option" where
  "toy_Execute t name data =
     (case t name of
        None \<Rightarrow> None
      | Some body \<Rightarrow> if HasPrefix body ''>'' then t (drop 1 body) else Some body)"

definition toy :: "(string, unit) engine" where
  "toy = \<lparr>Parse = toy_Parse, IsEmptyTree = (\<lambda>body. body = []), Execute = toy_Execute\<rparr>"

definition fs_builtin :: fnode where
  "fs_builtin = Dir
     [(''components'', Dir [(''alert.html'', File ''@@alert|box'')]),
      (''layouts'', Dir [(''base.html'', File ''@layout|>content''),
                         (''base.txt'', File ''@layout|>content'')])]"

definition fs_base :: fnode where
  "fs_base = Dir
     [(''components'', Dir [(''x.html'', File ''old x'')]),
      (''emails'', Dir [(''news.html'', File ''@content|<p>News</p>''),
                        (''welcome.html'', File ''@content|<p>Hello</p>''),
                        (''welcome.txt'', File ''@content|Hello'')]),
      (''readme.md'', File ''notes'')]"

definition fs_override :: fnode where
  "fs_override = Dir
     [(''components'', Dir [(''x.html'', File ''new x'')]),
      (''emails'', Dir [(''promo.html'', File ''@content|<b>Sale</b>''),
                        (''raw.html'', File ''no content block''),
                        (''welcome.html'', File ''@content|<p>Hi</p>'')])]"

definition fs_broken :: fnode where
  "fs_broken = Dir
     [(''components'', Dir [(''a.html'', File ''fine''), (''b.html'', File ''!'')]),
      (''partials'', Dir [(''p.html'', File ''never loaded'')])]"

definition fs_text_only :: fnode where
  "fs_text_only = Dir
     [(''emails'', Dir [(''blank.txt'', File ''@content|''),
                        (''note.txt'', File ''@content|a note''),
                        (''plain.txt'', File ''no content block'')])]"

definition fs_define_only :: fnode where
  "fs_define_only = Dir [(''components'', Dir [(''x.html'', File ''@helper|shared'')])]"

definition manager0 :: "string Manager" where
  "manager0 =
     \<lparr>processor = Some DefaultProcessor_Process,
      defaultLayout = ''base'',
      sources = [],
      theme = DefaultTheme,
      baseTemplates = (\<lambda>format. Map.empty),
      emailCache = Map.empty\<rparr>"

definition src_builtin :: TemplateSource where
  "src_builtin = \<lparr>Name = ''built-in'', FS = fs_builtin\<rparr>"
definition src_base :: TemplateSource where
  "src_base = \<lparr>Name = ''base'', FS = fs_base\<rparr>"
definition src_override :: TemplateSource where
  "src_override = \<lparr>Name = ''override'', FS = fs_override\<rparr>"
definition src_text_only :: TemplateSource where
  "src_text_only = \<lparr>Name = ''notes'', FS = fs_text_only\<rparr>"
definition src_broken :: TemplateSource where
  "src_broken = \<lparr>Name = ''broken'', FS = fs_broken\<rparr>"
definition src_define_only :: TemplateSource where
  "src_define_only = \<lparr>Name = ''define-only'', FS = fs_define_only\<rparr>"

definition manager4 :: "string Manager" where
  "manager4 = manager0\<lparr>sources := [src_builtin, src_base, src_override, src_text_only]\<rparr>"

definition loaded4 :: "string Manager" where
  "loaded4 = snd (loadBaseTemplates toy manager4)"

definition manager2 :: "string Manager" where
  "manager2 = manager0\<lparr>sources := [src_builtin, src_base]\<rparr>"

definition loaded2 :: "string Manager" where
  "loaded2 = snd (loadBaseTemplates toy manager2)"


definition fs_stock :: fnode where
  "fs_stock = Dir
     [(''components'', Dir [(''alert.html'', File ''stock alert'')]),
      (''emails'', Dir [(''welcome.txt'', File ''@content|stock welcome'')]),
      (''layouts'', Dir [(''base.txt'', File ''@layout|>content'')])]"

definition src_custom :: TemplateSource where
  "src_custom = \<lparr>Name = ''custom'', FS = Dir
     [(''components'', Dir [(''alert.html'', File ''custom alert'')]),
      (''emails'', Dir [(''welcome.txt'', File ''@content|custom welcome'')])]\<rparr>"

definition config1 :: "ManagerConfig option" where
  "config1 = Some \<lparr>Processor = None, Sources = [src_custom], Theme = None, DefaultLayout = []\<rparr>"

definition config2 :: "ManagerConfig option" where
  "config2 = Some \<lparr>Processor = None, Sources = [src_define_only], Theme = None, DefaultLayout = []\<rparr>"

definition manager1 :: "string Manager" where
  "manager1 = projr (NewManager toy fs_stock config1)"

section \<open>Properties of the helper functions\<close>

lemma sint_rem_in_range:
  fixes a b :: go_int
  assumes "b \<noteq> 0"
  shows "- (2 ^ 63) \<le> sint a smod sint b \<and> sint a smod sint b < 2 ^ 63"
proof -
  have la: "- (2 ^ 63) \<le> sint a" and ua: "sint a < 2 ^ 63"
    using sint_ge [of a] sint_lt [of a] by simp_all
  have nz: "sint b \<noteq> 0" using assms by (simp add: signed_eq_0_iff)
  have "\<bar>sint a\<bar> mod \<bar>sint b\<bar> \<le> \<bar>sint a\<bar>"
    by (rule zmod_le_nonneg_dividend) simp
  moreover have "0 \<le> \<bar>sint a\<bar> mod \<bar>sint b\<bar>"
    using nz by simp
  moreover have "\<bar>sint a\<bar> mod \<bar>sint b\<bar> < \<bar>sint b\<bar>"
    using nz by simp
  moreover have "\<bar>sint b\<bar> \<le> 2 ^ 63"
    using sint_ge [of b] sint_lt [of b] by simp
  ultimately show ?thesis
    using la ua by (cases "sint a" rule: linorder_cases [of _ 0])
      (simp_all add: signed_modulo_int_def)
qed

text \<open>
  C10. The helper \<^verbatim>\<open>mod\<close> is total: it never reaches the panic of \<^verbatim>\<open>%\<close>. For a zero
  divisor it returns 0; otherwise it returns the truncated remainder, that is the 64-bit
  value whose signed reading is \<open>sgn a * (|a| mod |b|)\<close>.
\<close>

theorem mod_total:
  "mod' a b = Inr (if b = 0 then 0 else word_of_int (sgn (sint a) * (\<bar>sint a\<bar> mod \<bar>sint b\<bar>)))
   \<and> (\<forall>p. mod' a b \<noteq> Inl p)
   \<and> (b \<noteq> 0 \<longrightarrow> (\<exists>r. mod' a b = Inr r \<and> go_rem a b = Inr r
          \<and> sint r = sgn (sint a) * (\<bar>sint a\<bar> mod \<bar>sint b\<bar>)))"
proof -
  have "sint (word_of_int (sint a smod sint b) :: go_int) = sint a smod sint b" if "b \<noteq> 0"
  proof -
    from sint_rem_in_range [OF that, of a]
    show ?thesis
      by (simp add: sint_sbintrunc' signed_take_bit_int_eq_self_iff)
  qed
  then show ?thesis
    by (auto simp: mod'_def go_rem_def signed_modulo_int_def)
qed

theorem mod_total_witness:
  "mod' (-7) 2 = Inr (-1) \<and> mod' 7 (-2) = Inr 1 \<and> mod' 5 0 = Inr 0"
  using mod_total [of "-7" 2] mod_total [of 7 "-2"] mod_total [of 5 0]
  by simp

section \<open>Properties of the naming resolver\<close>

lemma Ext_loop_suffix:
  assumes "CHR ''.'' \<notin> set e" "CHR ''/'' \<notin> set e" "k \<le> length e"
  shows "Ext_loop (xs @ CHR ''.'' # e) (Suc (length xs + k)) = CHR ''.'' # e"
  using assms(3)
proof (induction k)
  case 0
  show ?case by (simp add: nth_append)
next
  case (Suc k)
  then have k: "k < length e" by simp
  then have "e ! k \<in> set e" by simp
  with assms have ne: "e ! k \<noteq> CHR ''.''" "e ! k \<noteq> CHR ''/''" by auto
  have "(xs @ CHR ''.'' # e) ! (Suc (length xs + k)) = e ! k"
    by (simp add: nth_append)
  with ne Suc show ?case by simp
qed

lemma Ext_dot:
  assumes "CHR ''.'' \<notin> set e" "CHR ''/'' \<notin> set e"
  shows "Ext (xs @ CHR ''.'' # e) = CHR ''.'' # e"
  using Ext_loop_suffix [OF assms, of "length e" xs] by (simp add: Ext_def)

lemma TrimPrefix_append: "TrimPrefix (p @ s) p = s"
  by (simp add: TrimPrefix_def HasPrefix_def)

lemma TrimSuffix_append: "TrimSuffix (s @ t) t = s"
  by (simp add: TrimSuffix_def HasSuffix_def)

lemma TrimPrefix_root:
  "TrimPrefix (TrimPrefix (root @ CHR ''/'' # rel) root) ''/'' = rel"
  using TrimPrefix_append [of "''/''" rel] TrimPrefix_append [of root "CHR ''/'' # rel"]
  by simp

lemma templateName_under_root:
  "templateName root (root @ ''/'' @ rel) =
     (if root = LayoutsDir then ''layout:''
      else if root = ComponentsDir then ''component:''
      else if root = PartialsDir then ''partial:'' else []) @ TrimSuffix rel (Ext rel)"
  by (simp add: templateName_def Let_def TrimPrefix_root)

text \<open>
  C8. Canonical identifiers. For a file \<open>rel\<close> under a role's root directory the name is
  the role's tag followed by \<open>rel\<close> without its extension; under any other root (the
  documents) it is \<open>rel\<close> without its extension and without a tag. The extension that
  is stripped is the one \<^verbatim>\<open>path.Ext\<close> finds: for a file \<open>stem.e\<close>, where \<open>e\<close> has no
  dot and no slash, the name is built from \<open>stem\<close>.
\<close>

theorem templateName_canonical:
  assumes "CHR ''.'' \<notin> set e" and "CHR ''/'' \<notin> set e"
  shows "templateName LayoutsDir (LayoutsDir @ ''/'' @ stem @ ''.'' @ e) = ''layout:'' @ stem
       \<and> templateName ComponentsDir (ComponentsDir @ ''/'' @ stem @ ''.'' @ e) = ''component:'' @ stem
       \<and> templateName PartialsDir (PartialsDir @ ''/'' @ stem @ ''.'' @ e) = ''partial:'' @ stem
       \<and> (root \<noteq> LayoutsDir \<and> root \<noteq> ComponentsDir \<and> root \<noteq> PartialsDir
            \<longrightarrow> templateName root (root @ ''/'' @ stem @ ''.'' @ e) = stem)
       \<and> templateName root (root @ ''/'' @ rel) =
            (if root = LayoutsDir then ''layout:''
             else if root = ComponentsDir then ''component:''
             else if root = PartialsDir then ''partial:'' else []) @ TrimSuffix rel (Ext rel)"
proof -
  have strip: "TrimSuffix (stem @ CHR ''.'' # e) (Ext (stem @ CHR ''.'' # e)) = stem"
    using TrimSuffix_append [of stem "CHR ''.'' # e"] by (simp add: Ext_dot [OF assms])
  have gen: "templateName r (r @ ''/'' @ stem @ ''.'' @ e) =
      (if r = LayoutsDir then ''layout:''
       else if r = ComponentsDir then ''component:''
       else if r = PartialsDir then ''partial:'' else []) @ stem" for r
    using templateName_under_root [of r "stem @ ''.'' @ e"] strip by simp
  have ne: "ComponentsDir \<noteq> LayoutsDir" "PartialsDir \<noteq> LayoutsDir" "PartialsDir \<noteq> ComponentsDir"
    by (simp_all add: LayoutsDir_def ComponentsDir_def PartialsDir_def)
  have c1: "templateName LayoutsDir (LayoutsDir @ ''/'' @ stem @ ''.'' @ e) = ''layout:'' @ stem"
    unfolding gen [of LayoutsDir] by simp
  have c2: "templateName ComponentsDir (ComponentsDir @ ''/'' @ stem @ ''.'' @ e) = ''component:'' @ stem"
    unfolding gen [of ComponentsDir] using ne by simp
  have c3: "templateName PartialsDir (PartialsDir @ ''/'' @ stem @ ''.'' @ e) = ''partial:'' @ stem"
    unfolding gen [of PartialsDir] using ne by simp
  have c4: "root \<noteq> LayoutsDir \<and> root \<noteq> ComponentsDir \<and> root \<noteq> PartialsDir
      \<longrightarrow> templateName root (root @ ''/'' @ stem @ ''.'' @ e) = stem"
    unfolding gen [of root] by simp
  from c1 c2 c3 c4 templateName_under_root [of root rel] show ?thesis
    by blast
qed

theorem templateName_canonical_witness:
  "templateName LayoutsDir ''layouts/marketing/promo.html'' = ''layout:marketing/promo''
   \<and> templateName ComponentsDir ''components/alert.txt'' = ''component:alert''
   \<and> templateName PartialsDir ''partials/v1.2/footer.html'' = ''partial:v1.2/footer''
   \<and> templateName EmailsDir ''emails/welcome.html'' = ''welcome''"
proof -
  have a: "CHR ''.'' \<notin> set ''html''" "CHR ''/'' \<notin> set ''html''"
    and b: "CHR ''.'' \<notin> set ''txt''" "CHR ''/'' \<notin> set ''txt''" by simp_all
  show ?thesis
    using templateName_canonical [OF a, of "''marketing/promo''" EmailsDir "''x''"]
      templateName_canonical [OF b, of "''alert''" EmailsDir "''x''"]
      templateName_canonical [OF a, of "''v1.2/footer''" EmailsDir "''x''"]
      templateName_canonical [OF a, of "''welcome''" EmailsDir "''x''"]
    by (simp add: LayoutsDir_def ComponentsDir_def PartialsDir_def EmailsDir_def)
qed

section \<open>Properties of the theme accessor\<close>

lemma Split_nonempty: "Split s c \<noteq> []"
  by (induction s) (auto split: list.splits)

lemma GetThemeValue_loop_walk:
  "ps \<noteq> [] \<Longrightarrow> GetThemeValue_loop m ps =
     (case walk_segments m (butlast ps) of None \<Rightarrow> VNil | Some m' \<Rightarrow> index m' (last ps))"
proof (induction m ps rule: GetThemeValue_loop.induct)
  case (1 current)
  then show ?case by simp
next
  case (2 current part)
  then show ?case by simp
next
  case (3 current part v va)
  have b: "butlast (part # v # va) = part # butlast (v # va)"
    and l: "last (part # v # va) = last (v # va)" by simp_all
  show ?case
  proof (cases "index current part")
    case (VMap nxt)
    with 3 show ?thesis unfolding b l by simp
  qed (simp_all del: butlast.simps last.simps add: b l)
qed

text \<open>
  C6. Theme lookup. The empty path gives nil. Any other path is split on dots; the
  segments before the last one are walked through the nested mappings, and nil is the
  result when one of them is absent or does not hold a mapping; otherwise the result is
  what the mapping reached holds under the last segment (nil when it holds nothing).
  The lookup has no error result. The three lookups of the specification's example
  follow.
\<close>

theorem GetThemeValue_lookup:
  "GetThemeValue tree path =
     (if path = [] then VNil
      else (case walk_segments tree (butlast (Split path CHR ''.'')) of
              None \<Rightarrow> VNil
            | Some m \<Rightarrow> index m (last (Split path CHR ''.''))))
   \<and> GetThemeValue [(''a'', VMap [(''b'', VStr ''v'')])] ''a.b'' = VStr ''v''
   \<and> GetThemeValue [(''a'', VMap [(''b'', VStr ''v'')])] ''a.c'' = VNil
   \<and> GetThemeValue [(''a'', VMap [(''b'', VStr ''v'')])] ''x.y'' = VNil"
proof -
  have "GetThemeValue tree path =
     (if path = [] then VNil
      else (case walk_segments tree (butlast (Split path CHR ''.'')) of
              None \<Rightarrow> VNil
            | Some m \<Rightarrow> index m (last (Split path CHR ''.''))))"
    by (simp add: GetThemeValue_def GetThemeValue_loop_walk [OF Split_nonempty])
  moreover have "GetThemeValue [(''a'', VMap [(''b'', VStr ''v'')])] ''a.b'' = VStr ''v''"
    by (simp add: GetThemeValue_def index_def)
  moreover have "GetThemeValue [(''a'', VMap [(''b'', VStr ''v'')])] ''a.c'' = VNil"
    by (simp add: GetThemeValue_def index_def)
  moreover have "GetThemeValue [(''a'', VMap [(''b'', VStr ''v'')])] ''x.y'' = VNil"
    by (simp add: GetThemeValue_def index_def)
  ultimately show ?thesis by blast
qed

theorem GetThemeValue_lookup_witness:
  "GetThemeValue DefaultTheme ''colors.text.primary'' = VStr ''#333333''
   \<and> GetThemeValue DefaultTheme ''colors.primary.shade'' = VNil
   \<and> GetThemeValue DefaultTheme [] = VNil"
proof -
  have "GetThemeValue DefaultTheme ''colors.text.primary'' = VStr ''#333333''"
    using GetThemeValue_lookup [of DefaultTheme "''colors.text.primary''"]
    by (simp add: DefaultTheme_def index_def)
  moreover have "GetThemeValue DefaultTheme ''colors.primary.shade'' = VNil"
    by (simp add: GetThemeValue_def DefaultTheme_def index_def)
  moreover have "GetThemeValue DefaultTheme [] = VNil"
    by (simp add: GetThemeValue_def)
  ultimately show ?thesis by blast
qed

section \<open>The base rebuild as a list of declarations\<close>

lemma define_all_append: "define_all eng t (a @ b) = define_all eng (define_all eng t a) b"
  by (simp add: define_all_def)

lemma define_all_Nil: "define_all eng t [] = t"
  by (simp add: define_all_def)

lemma lastDef_Cons:
  "lastDef (d # defs) n =
     (case lastDef defs n of
        None \<Rightarrow> (if n = fst d then Some (snd d) else None)
      | Some b \<Rightarrow> Some b)"
  by (cases d) (simp add: lastDef_def map_add_def split: option.splits)

lemma associate_keep_or_replace:
  "associate eng d t =
     (if t (fst d) \<noteq> None \<and> IsEmptyTree eng (snd d) then t else t(fst d \<mapsto> snd d))"
  by (auto simp: associate_def fun_eq_iff split: option.splits)

lemma associate_lookup:
  "associate eng d t n =
     (if n = fst d then (if t n \<noteq> None \<and> IsEmptyTree eng (snd d) then t n else Some (snd d))
      else t n)"
  by (auto simp: associate_def split: option.splits)

lemma define_all_lookup:
  "define_all eng t defs n =
     (case lastDef (nonempty eng defs) n of
        Some b \<Rightarrow> Some b
      | None \<Rightarrow> (case t n of Some b \<Rightarrow> Some b | None \<Rightarrow> map_of defs n))"
proof (induction defs arbitrary: t)
  case Nil
  show ?case by (simp add: define_all_def lastDef_def nonempty_def split: option.splits)
next
  case (Cons d defs)
  have step: "define_all eng t (d # defs) = define_all eng (associate eng d t) defs"
    by (simp add: define_all_def)
  note IH = Cons.IH [of "associate eng d t"]
  show ?case
  proof (cases "lastDef (nonempty eng defs) n")
    case (Some b)
    then have "lastDef (nonempty eng (d # defs)) n = Some b"
      by (simp add: nonempty_def lastDef_Cons)
    with Some show ?thesis unfolding step IH by simp
  next
    case None
    show ?thesis
    proof (cases "n = fst d")
      case False
      then have "lastDef (nonempty eng (d # defs)) n = None"
        using None by (simp add: nonempty_def lastDef_Cons)
      moreover have "map_of (d # defs) n = map_of defs n"
        using False by (cases d) simp
      ultimately show ?thesis
        unfolding step IH None using False
        by (simp add: associate_lookup split: option.splits)
    next
      case True
      show ?thesis
      proof (cases "IsEmptyTree eng (snd d)")
        case False
        then have "lastDef (nonempty eng (d # defs)) n = Some (snd d)"
          using None True by (simp add: nonempty_def lastDef_Cons)
        then show ?thesis
          unfolding step IH None using True False by (simp add: associate_lookup)
      next
        case empty: True
        then have l: "lastDef (nonempty eng (d # defs)) n = None"
          using None by (simp add: nonempty_def)
        have m: "map_of (d # defs) n = Some (snd d)"
          using True by (cases d) simp
        show ?thesis
          unfolding step IH None l m using True empty
          by (cases "t (fst d)") (simp_all add: associate_lookup)
      qed
    qed
  qed
qed

lemma define_all_empty: "define_all eng Map.empty defs n = finalDef eng defs n"
  by (simp add: define_all_lookup finalDef_def split: option.splits)

lemma nonempty_append: "nonempty eng (a @ b) = nonempty eng a @ nonempty eng b"
  by (simp add: nonempty_def)

lemma nonempty_concat: "nonempty eng (concat (map g xs)) = concat (map (\<lambda>x. nonempty eng (g x)) xs)"
  by (induction xs) (simp_all add: nonempty_append, simp add: nonempty_def)

lemma loadDirectory_fn_ok:
  assumes "loadDirectory_fn eng src root ev m = (None, m')"
  shows "m' = m\<lparr>baseTemplates := (\<lambda>f. define_all eng (baseTemplates m f) (fileDecls eng src root f ev))\<rparr>"
proof (cases ev)
  case (WalkErr p e)
  with assms show ?thesis by (simp add: define_all_Nil split: if_splits)
next
  case (Visit p d)
  show ?thesis
  proof (cases d)
    case True
    with Visit assms show ?thesis by (simp add: define_all_Nil)
  next
    case False
    show ?thesis
    proof (cases "formatFromFile p")
      case None
      with Visit False assms show ?thesis by (simp add: define_all_Nil)
    next
      case (Some fmt)
      show ?thesis
      proof (cases "ReadFile (FS src) p")
        case (Inl e)
        with Visit False Some assms show ?thesis by simp
      next
        case (Inr content)
        show ?thesis
        proof (cases "Parse eng (templateName root p) content")
          case None
          with Visit False Some Inr assms show ?thesis by simp
        next
          case (Some defs)
          have "(baseTemplates m)(fmt := define_all eng (baseTemplates m fmt) defs) =
                (\<lambda>f. define_all eng (baseTemplates m f) (fileDecls eng src root f ev))"
            using Visit False \<open>formatFromFile p = Some fmt\<close> Inr Some
            by (auto simp: fun_eq_iff define_all_Nil)
          with Visit False \<open>formatFromFile p = Some fmt\<close> Inr Some assms show ?thesis
            by (simp add: Let_def)
        qed
      qed
    qed
  qed
qed

lemma loadDirectory_fn_frame:
  assumes "loadDirectory_fn eng src root ev m = (r, m')"
  shows "sources m' = sources m \<and> emailCache m' = emailCache m \<and> processor m' = processor m
         \<and> defaultLayout m' = defaultLayout m \<and> theme m' = theme m"
  using assms
  by (cases ev; cases "case ev of Visit p d \<Rightarrow> d | _ \<Rightarrow> False")
     (auto simp: Let_def split: if_splits option.splits sum.splits)

lemma loadDirectory_fn_err:
  "fst (loadDirectory_fn eng src root ev m) = fst (loadDirectory_fn eng src root ev m0)"
  by (cases ev; cases "case ev of Visit p d \<Rightarrow> d | _ \<Rightarrow> False")
     (auto simp: Let_def split: if_splits option.splits sum.splits)


lemma walk_all_ok:
  assumes "walk_all (loadDirectory_fn eng src root) evs m = (None, m')"
  shows "m' = m\<lparr>baseTemplates :=
           (\<lambda>f. define_all eng (baseTemplates m f) (concat (map (fileDecls eng src root f) evs)))\<rparr>"
  using assms
proof (induction evs arbitrary: m)
  case Nil
  then show ?case by (simp add: define_all_Nil)
next
  case (Cons ev evs)
  obtain r m1 where fn: "loadDirectory_fn eng src root ev m = (r, m1)"
    by (cases "loadDirectory_fn eng src root ev m")
  with Cons.prems have r: "r = None" and rest: "walk_all (loadDirectory_fn eng src root) evs m1 = (None, m')"
    by (auto split: option.splits)
  from fn r have m1: "m1 = m\<lparr>baseTemplates :=
      (\<lambda>f. define_all eng (baseTemplates m f) (fileDecls eng src root f ev))\<rparr>"
    by (simp add: loadDirectory_fn_ok)
  from Cons.IH [OF rest] show ?case
    by (simp add: m1 define_all_append)
qed

lemma walk_all_frame:
  assumes "walk_all (loadDirectory_fn eng src root) evs m = (r, m')"
  shows "sources m' = sources m \<and> emailCache m' = emailCache m \<and> processor m' = processor m
         \<and> defaultLayout m' = defaultLayout m \<and> theme m' = theme m"
  using assms
proof (induction evs arbitrary: m)
  case Nil
  then show ?case by simp
next
  case (Cons ev evs)
  obtain r1 m1 where fn: "loadDirectory_fn eng src root ev m = (r1, m1)"
    by (cases "loadDirectory_fn eng src root ev m")
  note fr = loadDirectory_fn_frame [OF fn]
  show ?case
  proof (cases r1)
    case None
    with fn Cons.prems have "walk_all (loadDirectory_fn eng src root) evs m1 = (r, m')" by simp
    from Cons.IH [OF this] fr show ?thesis by simp
  next
    case (Some e)
    with fn Cons.prems have "m' = m1" by simp
    with fr show ?thesis by simp
  qed
qed

lemma walk_all_err:
  "fst (walk_all (loadDirectory_fn eng src root) evs m)
     = fst (walk_all (loadDirectory_fn eng src root) evs m0)"
proof (induction evs arbitrary: m m0)
  case Nil
  show ?case by simp
next
  case (Cons ev evs)
  obtain r1 m1 where a: "loadDirectory_fn eng src root ev m = (r1, m1)"
    by (cases "loadDirectory_fn eng src root ev m")
  obtain r2 m2 where b: "loadDirectory_fn eng src root ev m0 = (r2, m2)"
    by (cases "loadDirectory_fn eng src root ev m0")
  from loadDirectory_fn_err [of eng src root ev m m0] a b have "r1 = r2" by simp
  with a b Cons.IH [of m1 m2] show ?case
    by (cases r2) auto
qed

lemma loadDirectory_ok:
  "loadDirectory eng src root m = (None, m') \<Longrightarrow>
     m' = m\<lparr>baseTemplates := (\<lambda>f. define_all eng (baseTemplates m f) (dirDecls eng src root f))\<rparr>"
  unfolding loadDirectory_def dirDecls_def by (rule walk_all_ok)

lemma loadDirectory_frame:
  "loadDirectory eng src root m = (r, m') \<Longrightarrow>
     sources m' = sources m \<and> emailCache m' = emailCache m \<and> processor m' = processor m
       \<and> defaultLayout m' = defaultLayout m \<and> theme m' = theme m"
  unfolding loadDirectory_def by (rule walk_all_frame)

lemma loadDirectory_err:
  "fst (loadDirectory eng src root m) = fst (loadDirectory eng src root m0)"
  unfolding loadDirectory_def by (rule walk_all_err)

text \<open>Loading one source: the three role directories in turn.\<close>

lemma loop_Cons_ok:
  assumes "loadBaseTemplates_loop eng (s # rest) m = (None, m')"
  shows "\<exists>m3. m3 = m\<lparr>baseTemplates := (\<lambda>f. define_all eng (baseTemplates m f) (sourceDecls eng s f))\<rparr>
           \<and> loadBaseTemplates_loop eng rest m3 = (None, m')"
proof -
  obtain r1 m1 where l1: "loadDirectory eng s LayoutsDir m = (r1, m1)"
    by (cases "loadDirectory eng s LayoutsDir m")
  obtain r2 m2 where l2: "loadDirectory eng s ComponentsDir m1 = (r2, m2)"
    by (cases "loadDirectory eng s ComponentsDir m1")
  obtain r3 m3 where l3: "loadDirectory eng s PartialsDir m2 = (r3, m3)"
    by (cases "loadDirectory eng s PartialsDir m2")
  from assms l1 have r1: "r1 = None" by (auto split: option.splits)
  from assms l1 l2 r1 have r2: "r2 = None" by (auto split: option.splits)
  from assms l1 l2 l3 r1 r2 have r3: "r3 = None" by (auto split: option.splits)
  from assms l1 l2 l3 r1 r2 r3 have rest: "loadBaseTemplates_loop eng rest m3 = (None, m')"
    by simp
  have "m3 = m\<lparr>baseTemplates := (\<lambda>f. define_all eng (baseTemplates m f) (sourceDecls eng s f))\<rparr>"
    using loadDirectory_ok [OF l1 [unfolded r1]] loadDirectory_ok [OF l2 [unfolded r2]]
      loadDirectory_ok [OF l3 [unfolded r3]]
    by (simp add: sourceDecls_def define_all_append)
  with rest show ?thesis by simp
qed

lemma loop_ok:
  assumes "loadBaseTemplates_loop eng srcs m = (None, m')"
  shows "m' = m\<lparr>baseTemplates :=
           (\<lambda>f. define_all eng (baseTemplates m f) (concat (map (\<lambda>s. sourceDecls eng s f) srcs)))\<rparr>"
  using assms
proof (induction srcs arbitrary: m)
  case Nil
  then show ?case by (simp add: define_all_Nil)
next
  case (Cons s rest)
  from loop_Cons_ok [OF Cons.prems] obtain m3 where
    m3: "m3 = m\<lparr>baseTemplates := (\<lambda>f. define_all eng (baseTemplates m f) (sourceDecls eng s f))\<rparr>"
    and rest: "loadBaseTemplates_loop eng rest m3 = (None, m')" by blast
  from Cons.IH [OF rest] show ?case
    by (simp add: m3 define_all_append)
qed

lemma loop_frame:
  assumes "loadBaseTemplates_loop eng srcs m = (r, m')"
  shows "sources m' = sources m \<and> emailCache m' = emailCache m \<and> processor m' = processor m
         \<and> defaultLayout m' = defaultLayout m \<and> theme m' = theme m"
  using assms
proof (induction srcs arbitrary: m)
  case Nil
  then show ?case by simp
next
  case (Cons s rest)
  obtain r1 m1 where l1: "loadDirectory eng s LayoutsDir m = (r1, m1)"
    by (cases "loadDirectory eng s LayoutsDir m")
  obtain r2 m2 where l2: "loadDirectory eng s ComponentsDir m1 = (r2, m2)"
    by (cases "loadDirectory eng s ComponentsDir m1")
  obtain r3 m3 where l3: "loadDirectory eng s PartialsDir m2 = (r3, m3)"
    by (cases "loadDirectory eng s PartialsDir m2")
  note f1 = loadDirectory_frame [OF l1] and f2 = loadDirectory_frame [OF l2]
    and f3 = loadDirectory_frame [OF l3]
  show ?case
  proof (cases "r1 = None \<and> r2 = None \<and> r3 = None")
    case True
    with Cons.prems l1 l2 l3 have "loadBaseTemplates_loop eng rest m3 = (r, m')" by simp
    from Cons.IH [OF this] f1 f2 f3 show ?thesis by simp
  next
    case False
    with Cons.prems l1 l2 l3 have "m' = m1 \<or> m' = m2 \<or> m' = m3"
      by (auto split: option.splits)
    with f1 f2 f3 show ?thesis by auto
  qed
qed

lemma loadBaseTemplates_ok:
  assumes "loadBaseTemplates eng m = (None, m')"
  shows "m' = m\<lparr>baseTemplates :=
           (\<lambda>f. define_all eng Map.empty (concat (map (\<lambda>s. sourceDecls eng s f) (sources m))))\<rparr>"
  using loop_ok [OF assms [unfolded loadBaseTemplates_def]] by simp

lemma loadBaseTemplates_frame:
  assumes "loadBaseTemplates eng m = (r, m')"
  shows "sources m' = sources m \<and> emailCache m' = emailCache m \<and> processor m' = processor m
         \<and> defaultLayout m' = defaultLayout m \<and> theme m' = theme m"
  using loop_frame [OF assms [unfolded loadBaseTemplates_def]] by simp

lemma lastDef_append:
  "lastDef (a @ b) n = (case lastDef b n of None \<Rightarrow> lastDef a n | Some v \<Rightarrow> Some v)"
  unfolding lastDef_def by (simp add: map_add_def)

lemma lastDef_None: "lastDef defs n = None \<longleftrightarrow> n \<notin> set (map fst defs)"
  by (simp add: lastDef_def map_of_eq_None_iff)

lemma lastDef_concat_None:
  assumes "\<forall>t \<in> set ts. n \<notin> set (map fst (g t))"
  shows "lastDef (concat (map g ts)) n = None"
  using assms by (auto simp: lastDef_None)

lemma lastDef_last_source:
  assumes "n \<in> set (map fst (g s))"
      and "\<forall>t \<in> set after. n \<notin> set (map fst (g t))"
  shows "lastDef (concat (map g (before @ s # after))) n = lastDef (g s) n"
proof -
  have a: "lastDef (concat (map g after)) n = None"
    by (rule lastDef_concat_None [OF assms(2)])
  from assms(1) obtain v where v: "lastDef (g s) n = Some v"
    using lastDef_None [of "g s" n] by (cases "lastDef (g s) n") auto
  have "concat (map g (before @ s # after)) = (concat (map g before) @ g s) @ concat (map g after)"
    by simp
  then show ?thesis
    by (simp only: lastDef_append [of "concat (map g before) @ g s"] a option.case
        lastDef_append [of "concat (map g before)" "g s"] v)
qed

lemma loop_single:
  "loadBaseTemplates_loop eng (s # rest) m =
     (case loadBaseTemplates_loop eng [s] m of
        (Some e, m') \<Rightarrow> (Some e, m')
      | (None, m') \<Rightarrow> loadBaseTemplates_loop eng rest m')"
  by (simp split: prod.splits option.splits)

lemma loop_single_err:
  "fst (loadBaseTemplates_loop eng [s] m) = fst (loadBaseTemplates_loop eng [s] m0)"
proof -
  obtain r1 m1 where l1: "loadDirectory eng s LayoutsDir m = (r1, m1)"
    by (cases "loadDirectory eng s LayoutsDir m")
  obtain r2 m2 where l2: "loadDirectory eng s ComponentsDir m1 = (r2, m2)"
    by (cases "loadDirectory eng s ComponentsDir m1")
  obtain r3 m3 where l3: "loadDirectory eng s PartialsDir m2 = (r3, m3)"
    by (cases "loadDirectory eng s PartialsDir m2")
  obtain q1 n1 where k1: "loadDirectory eng s LayoutsDir m0 = (q1, n1)"
    by (cases "loadDirectory eng s LayoutsDir m0")
  obtain q2 n2 where k2: "loadDirectory eng s ComponentsDir n1 = (q2, n2)"
    by (cases "loadDirectory eng s ComponentsDir n1")
  obtain q3 n3 where k3: "loadDirectory eng s PartialsDir n2 = (q3, n3)"
    by (cases "loadDirectory eng s PartialsDir n2")
  have e1: "r1 = q1" using loadDirectory_err [of eng s LayoutsDir m m0] l1 k1 by simp
  have e2: "r2 = q2" using loadDirectory_err [of eng s ComponentsDir m1 n1] l2 k2 by simp
  have e3: "r3 = q3" using loadDirectory_err [of eng s PartialsDir m2 n2] l3 k3 by simp
  show ?thesis
    using l1 l2 l3 k1 k2 k3 e1 e2 e3
    by (simp split: option.splits)
qed

lemma loop_succeeds_iff:
  "fst (loadBaseTemplates_loop eng srcs m) = None
     \<longleftrightarrow> (\<forall>s \<in> set srcs. fst (loadBaseTemplates_loop eng [s] m0) = None)"
proof (induction srcs arbitrary: m)
  case Nil
  show ?case by simp
next
  case (Cons s rest)
  obtain r m' where one: "loadBaseTemplates_loop eng [s] m = (r, m')"
    by (cases "loadBaseTemplates_loop eng [s] m")
  have r: "fst (loadBaseTemplates_loop eng [s] m0) = r"
    using loop_single_err [of eng s m m0] one by simp
  show ?case
  proof (cases r)
    case None
    have "loadBaseTemplates_loop eng (s # rest) m = loadBaseTemplates_loop eng rest m'"
      using one None by (subst loop_single) simp
    with Cons.IH [of m'] r None show ?thesis by simp
  next
    case (Some e)
    have "loadBaseTemplates_loop eng (s # rest) m = (Some e, m')"
      using one Some by (subst loop_single) simp
    with r Some show ?thesis by simp
  qed
qed

lemma loadBaseTemplates_succeeds_iff:
  "fst (loadBaseTemplates eng m) = None
     \<longleftrightarrow> (\<forall>s \<in> set (sources m). fst (loadBaseTemplates eng (m\<lparr>sources := [s]\<rparr>)) = None)"
  unfolding loadBaseTemplates_def
  using loop_succeeds_iff [of eng "sources m" _ "m\<lparr>baseTemplates := (\<lambda>format. Map.empty)\<rparr>"]
    loop_single_err [of eng _ "m\<lparr>sources := [_], baseTemplates := (\<lambda>format. Map.empty)\<rparr>"
                       "m\<lparr>baseTemplates := (\<lambda>format. Map.empty)\<rparr>"]
  by simp

lemma loadBaseTemplates_lookup:
  assumes "loadBaseTemplates eng m = (None, m')"
  shows "baseTemplates m' format ident =
           finalDef eng (concat (map (\<lambda>s. sourceDecls eng s format) (sources m))) ident"
  using loadBaseTemplates_ok [OF assms]
  by (simp add: define_all_empty)

lemma finalDef_last_source:
  assumes "ident \<in> set (map fst (nonempty eng (g s)))"
      and "\<forall>t \<in> set after. ident \<notin> set (map fst (nonempty eng (g t)))"
  shows "finalDef eng (concat (map g (before @ s # after))) ident
           = lastDef (nonempty eng (g s)) ident
       \<and> lastDef (nonempty eng (g s)) ident \<noteq> None"
proof -
  have l: "lastDef (nonempty eng (concat (map g (before @ s # after)))) ident
      = lastDef (nonempty eng (g s)) ident"
    unfolding nonempty_concat using assms by (rule lastDef_last_source)
  have v: "lastDef (nonempty eng (g s)) ident \<noteq> None"
    using assms(1) by (simp add: lastDef_None)
  with l show ?thesis by (auto simp: finalDef_def)
qed

lemma finalDef_all_empty:
  assumes "\<forall>t \<in> set srcs. ident \<notin> set (map fst (nonempty eng (g t)))"
  shows "finalDef eng (concat (map g srcs)) ident = map_of (concat (map g srcs)) ident"
proof -
  have "lastDef (nonempty eng (concat (map g srcs))) ident = None"
    unfolding nonempty_concat using assms by (rule lastDef_concat_None)
  then show ?thesis by (simp add: finalDef_def)
qed

text \<open>
  Against C1 as stated: the registry holds the built-in source, a source whose
  \<^verbatim>\<open>components/x.html\<close> has the body \<^verbatim>\<open>old x\<close>, and last a source whose
  \<^verbatim>\<open>components/x.html\<close> consists of a \<^verbatim>\<open>{{define}}\<close> block only. The rebuild
  succeeds and the last source declares \<^verbatim>\<open>component:x\<close>, with an empty body, but the
  base collection keeps the definition of the source before it.
\<close>

theorem override_precedence_counterexample:
  "fst (loadBaseTemplates toy (manager0\<lparr>sources := [src_builtin, src_base, src_define_only]\<rparr>)) = None
   \<and> declares toy src_define_only FormatHTML ''component:x''
   \<and> lastDef (sourceDecls toy src_define_only FormatHTML) ''component:x'' = Some []
   \<and> baseTemplates
        (snd (loadBaseTemplates toy (manager0\<lparr>sources := [src_builtin, src_base, src_define_only]\<rparr>)))
        FormatHTML ''component:x'' = Some ''old x''"
  by code_simp

text \<open>
  C1, as amended. Override precedence in the base collections. After a rebuild that
  succeeds, the definition a base collection holds for an identifier is the last
  definition with a body that is not empty of the last source, in registration order,
  that declares the identifier with such a body: the sources before it and its own
  earlier declarations are replaced, and declarations with an empty body after it
  change nothing. When every declaration of the identifier has an empty body, the
  collection holds the first of them. Declaring an identifier again is not an error: a
  rebuild succeeds exactly when every source loads on its own.
\<close>

theorem override_precedence:
  assumes "loadBaseTemplates eng m = (None, m')"
      and "sources m = before @ s # after"
      and "declares_body eng s format ident"
      and "\<forall>t \<in> set after. \<not> declares_body eng t format ident"
  shows "baseTemplates m' format ident = lastDef (nonempty eng (sourceDecls eng s format)) ident
       \<and> baseTemplates m' format ident \<noteq> None
       \<and> ((\<forall>t \<in> set (sources m). \<not> declares_body eng t format other)
            \<longrightarrow> baseTemplates m' format other
                = map_of (concat (map (\<lambda>t. sourceDecls eng t format) (sources m))) other)
       \<and> (fst (loadBaseTemplates eng mm) = None
            \<longleftrightarrow> (\<forall>t \<in> set (sources mm). fst (loadBaseTemplates eng (mm\<lparr>sources := [t]\<rparr>)) = None))"
proof -
  note fin = finalDef_last_source [of ident eng "\<lambda>t. sourceDecls eng t format" s after before,
      OF assms(3) [unfolded declares_body_def] assms(4) [unfolded declares_body_def]]
  have eq: "baseTemplates m' format ident = lastDef (nonempty eng (sourceDecls eng s format)) ident"
    unfolding loadBaseTemplates_lookup [OF assms(1)] assms(2) using fin by simp
  have ne: "baseTemplates m' format ident \<noteq> None"
    unfolding eq using fin by simp
  have first: "baseTemplates m' format other
                = map_of (concat (map (\<lambda>t. sourceDecls eng t format) (sources m))) other"
    if "\<forall>t \<in> set (sources m). \<not> declares_body eng t format other"
    unfolding loadBaseTemplates_lookup [OF assms(1)]
    using that unfolding declares_body_def by (rule finalDef_all_empty)
  from eq ne first loadBaseTemplates_succeeds_iff [of eng mm] show ?thesis by blast
qed

theorem override_precedence_witness:
  "fst (loadBaseTemplates toy manager4) = None
   \<and> declares_body toy src_base FormatHTML ''component:x''
   \<and> declares_body toy src_override FormatHTML ''component:x''
   \<and> lastDef (nonempty toy (sourceDecls toy src_base FormatHTML)) ''component:x'' = Some ''old x''
   \<and> baseTemplates (snd (loadBaseTemplates toy manager4)) FormatHTML ''component:x'' = Some ''new x''
   \<and> baseTemplates (snd (loadBaseTemplates toy manager4)) FormatHTML ''component:alert'' = Some []"
proof -
  have ok: "fst (loadBaseTemplates toy manager4) = None" by code_simp
  then have run: "loadBaseTemplates toy manager4 = (None, snd (loadBaseTemplates toy manager4))"
    by (metis prod.collapse)
  have srcs: "sources manager4 = [src_builtin, src_base] @ src_override # [src_text_only]"
    by (simp add: manager4_def)
  have d1: "declares_body toy src_override FormatHTML ''component:x''" by code_simp
  have d2: "\<forall>t \<in> set [src_text_only]. \<not> declares_body toy t FormatHTML ''component:x''"
    by code_simp
  have d3: "declares_body toy src_base FormatHTML ''component:x''" by code_simp
  have d4: "\<forall>t \<in> set (sources manager4). \<not> declares_body toy t FormatHTML ''component:alert''"
    by code_simp
  have v: "lastDef (nonempty toy (sourceDecls toy src_override FormatHTML)) ''component:x'' = Some ''new x''"
    by code_simp
  have w: "lastDef (nonempty toy (sourceDecls toy src_base FormatHTML)) ''component:x'' = Some ''old x''"
    by code_simp
  have f: "map_of (concat (map (\<lambda>t. sourceDecls toy t FormatHTML) (sources manager4)))
      ''component:alert'' = Some []"
    by code_simp
  note th = override_precedence [OF run srcs d1 d2, of "''component:alert''" manager4]
  from th v have a: "baseTemplates (snd (loadBaseTemplates toy manager4)) FormatHTML ''component:x''
      = Some ''new x''"
    by (simp only:)
  from th d4 f have b: "baseTemplates (snd (loadBaseTemplates toy manager4)) FormatHTML
      ''component:alert'' = Some []"
    by (simp only:)
  from ok d3 d1 w a b show ?thesis by simp
qed

section \<open>Document resolution\<close>

lemma getEmailTemplate_loop_skip:
  assumes "\<forall>t \<in> set after. \<forall>c. ReadFile (FS t) filename \<noteq> Inr c"
      and "k \<le> length after"
  shows "getEmailTemplate_loop eng name filename tmpl (pre @ after) (length pre + k)
           = getEmailTemplate_loop eng name filename tmpl (pre @ after) (length pre)"
  using assms(2)
proof (induction k)
  case 0
  show ?case by simp
next
  case (Suc k)
  then have k: "k < length after" by simp
  then have "after ! k \<in> set after" by simp
  with assms(1) have "\<forall>c. ReadFile (FS (after ! k)) filename \<noteq> Inr c" by blast
  then obtain e where "ReadFile (FS (after ! k)) filename = Inl e"
    by (cases "ReadFile (FS (after ! k)) filename") auto
  moreover have "(pre @ after) ! (length pre + k) = after ! k"
    by (simp add: nth_append)
  ultimately show ?case using Suc by simp
qed

lemma getEmailTemplate_loop_found:
  assumes "ReadFile (FS s) filename = Inr content"
      and "\<forall>t \<in> set after. \<forall>c. ReadFile (FS t) filename \<noteq> Inr c"
  shows "getEmailTemplate_loop eng name filename tmpl (before @ s # after)
           (length (before @ s # after))
         = (case Parse eng name content of
              None \<Rightarrow> Inl EngineParseError
            | Some defs \<Rightarrow> Inr (Some (define_all eng tmpl defs)))"
proof -
  have "getEmailTemplate_loop eng name filename tmpl ((before @ [s]) @ after)
          (length (before @ [s]) + length after)
        = getEmailTemplate_loop eng name filename tmpl ((before @ [s]) @ after)
          (length (before @ [s]))"
    by (rule getEmailTemplate_loop_skip [OF assms(2)]) simp
  moreover have "(before @ s # after) ! length before = s" by simp
  ultimately show ?thesis using assms(1) by simp
qed
















section \<open>The resolution cache\<close>


lemma getEmailTemplate_frame:
  assumes "getEmailTemplate eng name layout format m = (r, m1)"
  shows "sources m1 = sources m \<and> baseTemplates m1 = baseTemplates m
       \<and> processor m1 = processor m \<and> defaultLayout m1 = defaultLayout m
       \<and> theme m1 = theme m
       \<and> (\<forall>k. k \<noteq> cacheKey format name layout \<longrightarrow> emailCache m1 k = emailCache m k)"
  using assms
  by (auto simp: getEmailTemplate_def Let_def split: option.splits sum.splits)




lemma cacheKey_format: "cacheKey FormatText name layout \<noteq> cacheKey FormatHTML name' layout'"
  by (simp add: cacheKey_def)


lemma RenderEmail_unfold:
  assumes "(if layout0 = [] then defaultLayout m else layout0) = layout"
      and "getEmailTemplate eng name layout FormatText m = (rt, ma)"
      and "getEmailTemplate eng name layout FormatHTML ma = (rh, mb)"
  shows "RenderEmail eng name data layout0 m =
      (case render_text eng data \<lparr>Subject = [], Text = [], HTML = []\<rparr> rt of
         Inl err \<Rightarrow> (Inl err, ma)
       | Inr email1 \<Rightarrow>
           (case render_html eng (processor mb) data email1 rh of
              Inl err \<Rightarrow> (Inl err, mb)
            | Inr email2 \<Rightarrow>
                (if Text email2 = [] \<and> HTML email2 = []
                 then (Inl (NoTemplatesFound name), mb)
                 else (Inr email2, mb))))"
  unfolding RenderEmail_def Let_def assms(1) assms(2) prod.case
  by (simp add: assms(3) split: sum.splits)


lemma AddSource_frame:
  assumes "AddSource eng s m = (r, m')"
  shows "sources m' = sources m @ [s] \<and> emailCache m' = Map.empty
       \<and> processor m' = processor m \<and> defaultLayout m' = defaultLayout m \<and> theme m' = theme m"
  using loadBaseTemplates_frame [OF assms [unfolded AddSource_def]] by simp

lemma AddSource_ok:
  assumes "AddSource eng s m = (None, m')"
  shows "sources m' = sources m @ [s] \<and> emailCache m' = Map.empty
       \<and> baseTemplates m' = (\<lambda>f. define_all eng Map.empty
             (concat (map (\<lambda>t. sourceDecls eng t f) (sources m @ [s]))))"
  using loadBaseTemplates_ok [OF assms [unfolded AddSource_def]] by simp

lemma fst_getEmailTemplate:
  "fst (getEmailTemplate eng name layout format m) =
     (case emailCache m (cacheKey format name layout) of
        Some tmpl \<Rightarrow> Inr tmpl
      | None \<Rightarrow>
          (case getEmailTemplate_loop eng name (emailFile name format) (baseTemplates m format)
                  (sources m) (length (sources m)) of
             Inl err \<Rightarrow> Inl err
           | Inr None \<Rightarrow> Inl (TemplateNotFound (emailFile name format))
           | Inr (Some tmpl') \<Rightarrow> Inr tmpl'))"
  by (simp add: getEmailTemplate_def Let_def split: option.splits sum.splits)





section \<open>Adding a source\<close>

lemma AddSource_discards_base:
  "AddSource eng s (m\<lparr>baseTemplates := b\<rparr>) = AddSource eng s m"
  by (simp add: AddSource_def loadBaseTemplates_def)

text \<open>
  Against C4 as stated: a source whose second component does not parse is added to a
  manager that holds the built-in and one more source. The call returns the error, and
  afterwards the source is in the registry and the HTML base collection holds the
  component of the new source that was parsed before the failure, but not its partial:
  the previous base collections are gone.
\<close>

theorem AddSource_not_atomic_counterexample:
  "fst (AddSource toy src_broken loaded2)
     = Some (LoadComponentsFailed ''broken'' (ParseFailed ''components/b.html''))
   \<and> sources loaded2 = [src_builtin, src_base]
   \<and> sources (snd (AddSource toy src_broken loaded2)) = [src_builtin, src_base, src_broken]
   \<and> baseTemplates loaded2 FormatHTML ''component:a'' = None
   \<and> baseTemplates (snd (AddSource toy src_broken loaded2)) FormatHTML ''component:a'' = Some ''fine''
   \<and> baseTemplates (snd (AddSource toy src_broken loaded2)) FormatHTML ''partial:p'' = None
   \<and> baseTemplates (snd (AddSource toy src_broken loaded2)) \<noteq> baseTemplates loaded2"
proof -
  have a: "fst (AddSource toy src_broken loaded2)
     = Some (LoadComponentsFailed ''broken'' (ParseFailed ''components/b.html''))"
    by code_simp
  have b: "sources loaded2 = [src_builtin, src_base]" by code_simp
  have c: "sources (snd (AddSource toy src_broken loaded2)) = [src_builtin, src_base, src_broken]"
    by code_simp
  have d: "baseTemplates loaded2 FormatHTML ''component:a'' = None" by code_simp
  have e: "baseTemplates (snd (AddSource toy src_broken loaded2)) FormatHTML ''component:a'' = Some ''fine''"
    by code_simp
  have f: "baseTemplates (snd (AddSource toy src_broken loaded2)) FormatHTML ''partial:p'' = None"
    by code_simp
  from d e have "baseTemplates (snd (AddSource toy src_broken loaded2)) \<noteq> baseTemplates loaded2"
    by (metis option.distinct(1))
  with a b c d e f show ?thesis by simp
qed

text \<open>
  C4, as amended. Adding a source appends it to the registry and empties the cache
  whether or not the rebuild succeeds. The rebuild fails, and the call returns its
  error, exactly when one of the sources, the new one included, does not load on its
  own. When it succeeds, both base collections are the full rebuild over all sources
  with the new one last: for each identifier the last declaration with a body that is
  not empty, or the first declaration when all are empty. The rebuild works in place on collections it first empties:
  nothing of the outcome depends on the previous base collections, which are not kept
  on failure.
\<close>

theorem AddSource_in_place:
  "sources (snd (AddSource eng s m)) = sources m @ [s]
   \<and> emailCache (snd (AddSource eng s m)) = Map.empty
   \<and> (fst (AddSource eng s m) = None \<longleftrightarrow>
        (\<forall>t \<in> set (sources m @ [s]). fst (loadBaseTemplates eng (m\<lparr>sources := [t]\<rparr>)) = None))
   \<and> (fst (AddSource eng s m) = None \<longrightarrow>
        baseTemplates (snd (AddSource eng s m)) format ident
          = finalDef eng (concat (map (\<lambda>t. sourceDecls eng t format) (sources m @ [s]))) ident)
   \<and> AddSource eng s (m\<lparr>baseTemplates := previous\<rparr>) = AddSource eng s m"
proof -
  obtain e m' where add: "AddSource eng s m = (e, m')" by (cases "AddSource eng s m")
  note fr = AddSource_frame [OF add]
  let ?m = "m\<lparr>sources := sources m @ [s], emailCache := Map.empty\<rparr>"
  have run: "loadBaseTemplates eng ?m = (e, m')" using add by (simp add: AddSource_def)
  have "fst (loadBaseTemplates eng (?m\<lparr>sources := [t]\<rparr>)) = fst (loadBaseTemplates eng (m\<lparr>sources := [t]\<rparr>))" for t
    unfolding loadBaseTemplates_def
    using loop_single_err [of eng t] by simp
  with loadBaseTemplates_succeeds_iff [of eng ?m] run
  have iff: "e = None \<longleftrightarrow>
      (\<forall>t \<in> set (sources m @ [s]). fst (loadBaseTemplates eng (m\<lparr>sources := [t]\<rparr>)) = None)"
    by simp
  have ok: "baseTemplates m' format ident
          = finalDef eng (concat (map (\<lambda>t. sourceDecls eng t format) (sources m @ [s]))) ident"
    if "e = None"
    using loadBaseTemplates_lookup [of eng ?m m' format ident] run that by simp
  show ?thesis
    unfolding add fst_conv snd_conv
    using fr iff ok AddSource_discards_base [where eng = eng and s = s and m = m and b = previous] add by simp
qed


theorem AddSource_in_place_witness:
  "fst (AddSource toy src_override loaded2) = None
   \<and> sources (snd (AddSource toy src_override loaded2)) = [src_builtin, src_base, src_override]
   \<and> emailCache (snd (AddSource toy src_override loaded2)) = Map.empty
   \<and> baseTemplates (snd (AddSource toy src_override loaded2)) FormatHTML ''component:x'' = Some ''new x''
   \<and> fst (AddSource toy src_define_only loaded2) = None
   \<and> baseTemplates (snd (AddSource toy src_define_only loaded2)) FormatHTML ''component:x'' = Some ''old x''
   \<and> baseTemplates (snd (AddSource toy src_define_only loaded2)) FormatHTML ''helper'' = Some ''shared''
   \<and> fst (AddSource toy src_broken loaded2) \<noteq> None
   \<and> fst (loadBaseTemplates toy (loaded2\<lparr>sources := [src_broken]\<rparr>)) \<noteq> None
   \<and> sources (snd (AddSource toy src_broken loaded2)) = [src_builtin, src_base, src_broken]
   \<and> emailCache (snd (AddSource toy src_broken loaded2)) = Map.empty"
proof -
  have srcs: "sources loaded2 = [src_builtin, src_base]" by code_simp
  have ok: "fst (AddSource toy src_override loaded2) = None" by code_simp
  have ok': "fst (AddSource toy src_define_only loaded2) = None" by code_simp
  have bad: "fst (loadBaseTemplates toy (loaded2\<lparr>sources := [src_broken]\<rparr>)) \<noteq> None"
    by code_simp
  have v: "finalDef toy (concat (map (\<lambda>t. sourceDecls toy t FormatHTML)
              ([src_builtin, src_base] @ [src_override]))) ''component:x'' = Some ''new x''"
    by code_simp
  have v1: "finalDef toy (concat (map (\<lambda>t. sourceDecls toy t FormatHTML)
              ([src_builtin, src_base] @ [src_define_only]))) ''component:x'' = Some ''old x''"
    by code_simp
  have v2: "finalDef toy (concat (map (\<lambda>t. sourceDecls toy t FormatHTML)
              ([src_builtin, src_base] @ [src_define_only]))) ''helper'' = Some ''shared''"
    by code_simp
  from AddSource_in_place [of toy src_override loaded2 FormatHTML "''component:x''" "baseTemplates loaded2"]
    ok srcs v
  have a: "sources (snd (AddSource toy src_override loaded2)) = [src_builtin, src_base, src_override]"
    "emailCache (snd (AddSource toy src_override loaded2)) = Map.empty"
    "baseTemplates (snd (AddSource toy src_override loaded2)) FormatHTML ''component:x'' = Some ''new x''"
    by simp_all
  from AddSource_in_place [of toy src_define_only loaded2 FormatHTML "''component:x''" "baseTemplates loaded2"]
    ok' srcs v1
  have d1: "baseTemplates (snd (AddSource toy src_define_only loaded2)) FormatHTML ''component:x'' = Some ''old x''"
    by simp
  from AddSource_in_place [of toy src_define_only loaded2 FormatHTML "''helper''" "baseTemplates loaded2"]
    ok' srcs v2
  have d2: "baseTemplates (snd (AddSource toy src_define_only loaded2)) FormatHTML ''helper'' = Some ''shared''"
    by simp
  from AddSource_in_place [of toy src_broken loaded2 FormatHTML "''component:x''" "baseTemplates loaded2"]
    srcs bad
  have b: "fst (AddSource toy src_broken loaded2) \<noteq> None"
    "sources (snd (AddSource toy src_broken loaded2)) = [src_builtin, src_base, src_broken]"
    "emailCache (snd (AddSource toy src_broken loaded2)) = Map.empty"
    by auto
  from ok a ok' d1 d2 bad b show ?thesis by simp
qed

section \<open>Rendering\<close>

lemma getEmailTemplate_fst_cong:
  assumes "sources m' = sources m" "baseTemplates m' = baseTemplates m"
      and "emailCache m' (cacheKey format name layout) = emailCache m (cacheKey format name layout)"
  shows "fst (getEmailTemplate eng name layout format m') = fst (getEmailTemplate eng name layout format m)"
  using assms
  by (auto simp: getEmailTemplate_def Let_def split: option.splits sum.splits)

lemma getEmailTemplate_html_after_text:
  assumes "getEmailTemplate eng name layout FormatText m = (rt, ma)"
  shows "fst (getEmailTemplate eng name layout FormatHTML ma)
           = fst (getEmailTemplate eng name layout FormatHTML m)"
proof (rule getEmailTemplate_fst_cong)
  note fr = getEmailTemplate_frame [OF assms]
  show "sources ma = sources m" "baseTemplates ma = baseTemplates m" using fr by simp_all
  show "emailCache ma (cacheKey FormatHTML name layout) = emailCache m (cacheKey FormatHTML name layout)"
    using fr cacheKey_format [of name layout name layout] by metis
qed

text \<open>
  Against C5 as stated: the document \<^verbatim>\<open>blank\<close> exists as text only, so exactly one
  format resolves, and executing its layout succeeds; the body it renders is empty, and
  the render fails with the error that no templates were found.
\<close>

theorem RenderEmail_by_format_counterexample:
  "\<not> isl (fst (getEmailTemplate toy ''blank'' ''base'' FormatText loaded4))
   \<and> isl (fst (getEmailTemplate toy ''blank'' ''base'' FormatHTML loaded4))
   \<and> executeTemplate toy
         (projr (fst (getEmailTemplate toy ''blank'' ''base'' FormatText loaded4)))
         ''layout'' () = Some []
   \<and> defaultLayout loaded4 = ''base''
   \<and> fst (RenderEmail toy ''blank'' () [] loaded4) = Inl (NoTemplatesFound ''blank'')"
  by code_simp

text \<open>
  C5, as amended. With the layout the call uses (the default one for an empty layout):
  when neither format resolves, the render fails with the error that no templates were
  found for the document's name. When exactly one format resolves: if executing its
  \<^verbatim>\<open>layout\<close> entry fails, or for HTML the processor fails, the render fails with that
  failure; if the body rendered is empty, the render fails with the error that no
  templates were found; otherwise the render succeeds with that body and the other
  body empty. A failing execution of the text format fails the render whatever the HTML
  format does.
\<close>

theorem RenderEmail_by_format:
  assumes "layout = (if layout0 = [] then defaultLayout m else layout0)"
  shows
  "(isl (fst (getEmailTemplate eng name layout FormatText m))
      \<and> isl (fst (getEmailTemplate eng name layout FormatHTML m))
     \<longrightarrow> fst (RenderEmail eng name data layout0 m) = Inl (NoTemplatesFound name))
   \<and> (fst (getEmailTemplate eng name layout FormatText m) = Inr tmpl
      \<and> isl (fst (getEmailTemplate eng name layout FormatHTML m))
      \<and> executeTemplate eng tmpl ''layout'' data = Some body \<and> body \<noteq> []
     \<longrightarrow> fst (RenderEmail eng name data layout0 m) = Inr \<lparr>Subject = [], Text = body, HTML = []\<rparr>)
   \<and> (isl (fst (getEmailTemplate eng name layout FormatText m))
      \<and> fst (getEmailTemplate eng name layout FormatHTML m) = Inr tmpl
      \<and> executeTemplate eng tmpl ''layout'' data = Some html
      \<and> (case processor m of None \<Rightarrow> Some html | Some process \<Rightarrow> process html) = Some body
      \<and> body \<noteq> []
     \<longrightarrow> fst (RenderEmail eng name data layout0 m) = Inr \<lparr>Subject = [], Text = [], HTML = body\<rparr>)
   \<and> (fst (getEmailTemplate eng name layout FormatText m) = Inr tmpl
      \<and> executeTemplate eng tmpl ''layout'' data = None
     \<longrightarrow> fst (RenderEmail eng name data layout0 m) = Inl RenderTextFailed)
   \<and> (isl (fst (getEmailTemplate eng name layout FormatText m))
      \<and> fst (getEmailTemplate eng name layout FormatHTML m) = Inr tmpl
      \<and> executeTemplate eng tmpl ''layout'' data = None
     \<longrightarrow> fst (RenderEmail eng name data layout0 m) = Inl RenderHTMLFailed)
   \<and> (isl (fst (getEmailTemplate eng name layout FormatText m))
      \<and> fst (getEmailTemplate eng name layout FormatHTML m) = Inr tmpl
      \<and> executeTemplate eng tmpl ''layout'' data = Some html
      \<and> processor m = Some process \<and> process html = None
     \<longrightarrow> fst (RenderEmail eng name data layout0 m) = Inl ProcessFailed)
   \<and> (fst (getEmailTemplate eng name layout FormatText m) = Inr tmpl
      \<and> isl (fst (getEmailTemplate eng name layout FormatHTML m))
      \<and> executeTemplate eng tmpl ''layout'' data = Some []
     \<longrightarrow> fst (RenderEmail eng name data layout0 m) = Inl (NoTemplatesFound name))
   \<and> (isl (fst (getEmailTemplate eng name layout FormatText m))
      \<and> fst (getEmailTemplate eng name layout FormatHTML m) = Inr tmpl
      \<and> executeTemplate eng tmpl ''layout'' data = Some html
      \<and> (case processor m of None \<Rightarrow> Some html | Some process \<Rightarrow> process html) = Some []
     \<longrightarrow> fst (RenderEmail eng name data layout0 m) = Inl (NoTemplatesFound name))"
proof -
  obtain rt ma where t: "getEmailTemplate eng name layout FormatText m = (rt, ma)"
    by (cases "getEmailTemplate eng name layout FormatText m")
  obtain rh mb where h: "getEmailTemplate eng name layout FormatHTML ma = (rh, mb)"
    by (cases "getEmailTemplate eng name layout FormatHTML ma")
  have rh: "fst (getEmailTemplate eng name layout FormatHTML m) = rh"
    using getEmailTemplate_html_after_text [OF t] h by simp
  have rt: "fst (getEmailTemplate eng name layout FormatText m) = rt" using t by simp
  have pr: "processor mb = processor m"
    using getEmailTemplate_frame [OF t] getEmailTemplate_frame [OF h] by simp
  note run = RenderEmail_unfold [OF assms [symmetric] t h, of data]
  have c1: "fst (RenderEmail eng name data layout0 m) = Inl (NoTemplatesFound name)"
    if "isl rt" "isl rh"
    using that unfolding run
    by (cases rt; cases rh) (simp_all add: render_text_def render_html_def)
  have c2: "fst (RenderEmail eng name data layout0 m) = Inr \<lparr>Subject = [], Text = body, HTML = []\<rparr>"
    if "rt = Inr tmpl" "isl rh" "executeTemplate eng tmpl ''layout'' data = Some body" "body \<noteq> []"
    using that unfolding run
    by (cases rh) (simp_all add: render_text_def render_html_def)
  have c3: "fst (RenderEmail eng name data layout0 m) = Inr \<lparr>Subject = [], Text = [], HTML = body\<rparr>"
    if "isl rt" "rh = Inr tmpl" "executeTemplate eng tmpl ''layout'' data = Some html"
      "(case processor m of None \<Rightarrow> Some html | Some process \<Rightarrow> process html) = Some body"
      "body \<noteq> []"
    using that unfolding run pr
    by (cases rt) (auto simp: render_text_def render_html_def split: option.splits)
  have c4: "fst (RenderEmail eng name data layout0 m) = Inl RenderTextFailed"
    if "rt = Inr tmpl" "executeTemplate eng tmpl ''layout'' data = None"
    using that unfolding run by (simp add: render_text_def)
  have c5: "fst (RenderEmail eng name data layout0 m) = Inl RenderHTMLFailed"
    if "isl rt" "rh = Inr tmpl" "executeTemplate eng tmpl ''layout'' data = None"
    using that unfolding run
    by (cases rt) (simp_all add: render_text_def render_html_def)
  have c6: "fst (RenderEmail eng name data layout0 m) = Inl ProcessFailed"
    if "isl rt" "rh = Inr tmpl" "executeTemplate eng tmpl ''layout'' data = Some html"
      "processor m = Some process" "process html = None"
    using that unfolding run pr
    by (cases rt) (simp_all add: render_text_def render_html_def)
  have c7: "fst (RenderEmail eng name data layout0 m) = Inl (NoTemplatesFound name)"
    if "rt = Inr tmpl" "isl rh" "executeTemplate eng tmpl ''layout'' data = Some []"
    using that unfolding run
    by (cases rh) (simp_all add: render_text_def render_html_def)
  have c8: "fst (RenderEmail eng name data layout0 m) = Inl (NoTemplatesFound name)"
    if "isl rt" "rh = Inr tmpl" "executeTemplate eng tmpl ''layout'' data = Some html"
      "(case processor m of None \<Rightarrow> Some html | Some process \<Rightarrow> process html) = Some []"
    using that unfolding run pr
    by (cases rt) (auto simp: render_text_def render_html_def split: option.splits)
  show ?thesis
    unfolding rt rh
    by (intro conjI impI; (elim conjE)?) (rule c1 c2 c3 c4 c5 c6 c7 c8; assumption)+
qed

theorem RenderEmail_by_format_witness:
  "isl (fst (getEmailTemplate toy ''nope'' ''base'' FormatText loaded4))
   \<and> isl (fst (getEmailTemplate toy ''nope'' ''base'' FormatHTML loaded4))
   \<and> fst (RenderEmail toy ''nope'' () [] loaded4) = Inl (NoTemplatesFound ''nope'')
   \<and> \<not> isl (fst (getEmailTemplate toy ''note'' ''base'' FormatText loaded4))
   \<and> isl (fst (getEmailTemplate toy ''note'' ''base'' FormatHTML loaded4))
   \<and> fst (RenderEmail toy ''note'' () [] loaded4)
       = Inr \<lparr>Subject = [], Text = ''a note'', HTML = []\<rparr>
   \<and> isl (fst (getEmailTemplate toy ''promo'' ''base'' FormatText loaded4))
   \<and> \<not> isl (fst (getEmailTemplate toy ''promo'' ''base'' FormatHTML loaded4))
   \<and> fst (RenderEmail toy ''promo'' () ''base'' loaded4)
       = Inr \<lparr>Subject = [], Text = [], HTML = ''<b>Sale</b>''\<rparr>
   \<and> \<not> isl (fst (getEmailTemplate toy ''plain'' ''base'' FormatText loaded4))
   \<and> fst (RenderEmail toy ''plain'' () [] loaded4) = Inl RenderTextFailed
   \<and> isl (fst (getEmailTemplate toy ''raw'' ''base'' FormatText loaded4))
   \<and> \<not> isl (fst (getEmailTemplate toy ''raw'' ''base'' FormatHTML loaded4))
   \<and> fst (RenderEmail toy ''raw'' () [] loaded4) = Inl RenderHTMLFailed
   \<and> fst (RenderEmail toy ''promo'' () [] (loaded4\<lparr>processor := Some (\<lambda>html. None)\<rparr>))
       = Inl ProcessFailed
   \<and> fst (RenderEmail toy ''blank'' () [] loaded4) = Inl (NoTemplatesFound ''blank'')"
proof -
  let ?T = "\<lambda>n. fst (getEmailTemplate toy n ''base'' FormatText loaded4)"
  let ?H = "\<lambda>n. fst (getEmailTemplate toy n ''base'' FormatHTML loaded4)"
  let ?p = "loaded4\<lparr>processor := Some (\<lambda>html. None)\<rparr>"
  have lay: "''base'' = (if ([]::string) = [] then defaultLayout loaded4 else [])"
    and lay': "''base'' = (if ''base'' = [] then defaultLayout loaded4 else ''base'')"
    and layp: "''base'' = (if ([]::string) = [] then defaultLayout ?p else [])"
    by code_simp+
  have n1: "isl (?T ''nope'')" and n2: "isl (?H ''nope'')"
    by code_simp+
  have t1: "\<not> isl (?T ''note'')" and t2: "isl (?H ''note'')"
    and t3: "executeTemplate toy (projr (?T ''note'')) ''layout'' () = Some ''a note''"
    by code_simp+
  have h1: "isl (?T ''promo'')" and h2: "\<not> isl (?H ''promo'')"
    and h3: "executeTemplate toy (projr (?H ''promo'')) ''layout'' () = Some ''<b>Sale</b>''"
    and h4: "(case processor loaded4 of None \<Rightarrow> Some ''<b>Sale</b>''
              | Some process \<Rightarrow> process ''<b>Sale</b>'') = Some ''<b>Sale</b>''"
    by code_simp+
  have p1: "\<not> isl (?T ''plain'')"
    and p2: "executeTemplate toy (projr (?T ''plain'')) ''layout'' () = None"
    by code_simp+
  have w1: "isl (?T ''raw'')" and w2: "\<not> isl (?H ''raw'')"
    and w3: "executeTemplate toy (projr (?H ''raw'')) ''layout'' () = None"
    by code_simp+
  have q1: "isl (fst (getEmailTemplate toy ''promo'' ''base'' FormatText ?p))"
    and q2: "\<not> isl (fst (getEmailTemplate toy ''promo'' ''base'' FormatHTML ?p))"
    and q3: "executeTemplate toy (projr (fst (getEmailTemplate toy ''promo'' ''base'' FormatHTML ?p)))
        ''layout'' () = Some ''<b>Sale</b>''"
    by code_simp+
  have q4: "processor ?p = Some (\<lambda>html. None)" by simp
  have b1: "\<not> isl (?T ''blank'')" and b2: "isl (?H ''blank'')"
    and b3: "executeTemplate toy (projr (?T ''blank'')) ''layout'' () = Some []"
    by code_simp+
  note collapse = sum.collapse(2) [symmetric]
  have a: "fst (RenderEmail toy ''nope'' () [] loaded4) = Inl (NoTemplatesFound ''nope'')"
    using RenderEmail_by_format [where eng = toy and name = "''nope''" and data = "()", OF lay] n1 n2
    by blast
  have b: "fst (RenderEmail toy ''note'' () [] loaded4)
       = Inr \<lparr>Subject = [], Text = ''a note'', HTML = []\<rparr>"
    using RenderEmail_by_format [where eng = toy and name = "''note''" and data = "()"
        and tmpl = "projr (?T ''note'')" and body = "''a note''", OF lay]
      collapse [OF t1] t2 t3
    by simp
  have c: "fst (RenderEmail toy ''promo'' () ''base'' loaded4)
       = Inr \<lparr>Subject = [], Text = [], HTML = ''<b>Sale</b>''\<rparr>"
    using RenderEmail_by_format [where eng = toy and name = "''promo''" and data = "()"
        and tmpl = "projr (?H ''promo'')"
        and body = "''<b>Sale</b>''" and html = "''<b>Sale</b>''", OF lay']
      h1 collapse [OF h2] h3 h4
    by simp
  have d: "fst (RenderEmail toy ''plain'' () [] loaded4) = Inl RenderTextFailed"
    using RenderEmail_by_format [where eng = toy and name = "''plain''" and data = "()"
        and tmpl = "projr (?T ''plain'')", OF lay]
      collapse [OF p1] p2
    by blast
  have e: "fst (RenderEmail toy ''raw'' () [] loaded4) = Inl RenderHTMLFailed"
    using RenderEmail_by_format [where eng = toy and name = "''raw''" and data = "()"
        and tmpl = "projr (?H ''raw'')", OF lay]
      w1 collapse [OF w2] w3
    by blast
  have f: "fst (RenderEmail toy ''promo'' () [] ?p) = Inl ProcessFailed"
    using RenderEmail_by_format [where eng = toy and name = "''promo''" and data = "()"
        and tmpl = "projr (fst (getEmailTemplate toy ''promo'' ''base'' FormatHTML ?p))"
        and html = "''<b>Sale</b>''" and process = "\<lambda>html. None", OF layp]
      q1 collapse [OF q2] q3 q4
    by blast
  have g: "fst (RenderEmail toy ''blank'' () [] loaded4) = Inl (NoTemplatesFound ''blank'')"
    using RenderEmail_by_format [where eng = toy and name = "''blank''" and data = "()"
        and tmpl = "projr (?T ''blank'')", OF lay]
      collapse [OF b1] b2 b3
    by blast
  from n1 n2 a t1 t2 b h1 h2 c p1 d w1 w2 e f g show ?thesis by simp
qed

section \<open>Sources that lack a role directory\<close>







section \<open>Construction\<close>

lemma NewManager_loop_ok:
  assumes "NewManager_loop eng srcs m = Inr m'"
      and "emailCache m = Map.empty"
      and "baseTemplates m = (\<lambda>f. define_all eng Map.empty
             (concat (map (\<lambda>t. sourceDecls eng t f) (sources m))))"
  shows "sources m' = sources m @ srcs \<and> emailCache m' = Map.empty
       \<and> baseTemplates m' = (\<lambda>f. define_all eng Map.empty
             (concat (map (\<lambda>t. sourceDecls eng t f) (sources m'))))"
  using assms
proof (induction srcs arbitrary: m)
  case Nil
  then show ?case by simp
next
  case (Cons s rest)
  obtain r m1 where add: "AddSource eng s m = (r, m1)" by (cases "AddSource eng s m")
  with Cons.prems(1) have r: "r = None" and rest: "NewManager_loop eng rest m1 = Inr m'"
    by (auto split: option.splits)
  note ok = AddSource_ok [OF add [unfolded r]]
  from ok have c: "emailCache m1 = Map.empty" by simp
  from ok have b: "baseTemplates m1 = (\<lambda>f. define_all eng Map.empty
             (concat (map (\<lambda>t. sourceDecls eng t f) (sources m1))))" by simp
  from Cons.IH [OF rest c b] ok show ?case by simp
qed

lemma NewManager_Inr:
  assumes "NewManager eng builtinFS config = Inr m"
  shows "\<exists>m1 p l th.
           AddSource eng \<lparr>Name = ''built-in'', FS = builtinFS\<rparr>
             \<lparr>processor = p, defaultLayout = l, sources = [], theme = th,
              baseTemplates = (\<lambda>format. Map.empty), emailCache = Map.empty\<rparr> = (None, m1)
           \<and> NewManager_loop eng (case config of None \<Rightarrow> [] | Some c \<Rightarrow> Sources c) m1 = Inr m"
proof -
  define c where "c = (case config of
                      None \<Rightarrow> \<lparr>Processor = None, Sources = [], Theme = None, DefaultLayout = []\<rparr>
                    | Some c \<Rightarrow> c)"
  define c1 where "c1 = (if Processor c = None
                    then c\<lparr>Processor := Some DefaultProcessor_Process\<rparr> else c)"
  define c2 where "c2 = (if DefaultLayout c1 = []
                    then c1\<lparr>DefaultLayout := ''base''\<rparr> else c1)"
  define c3 where "c3 = (if Theme c2 = None
                    then c2\<lparr>Theme := Some DefaultTheme\<rparr> else c2)"
  define m0 :: "'a Manager" where "m0 = \<lparr>processor = Processor c3,
               defaultLayout = DefaultLayout c3,
               sources = [],
               theme = (case Theme c3 of Some t \<Rightarrow> t | None \<Rightarrow> []),
               baseTemplates = (\<lambda>format. Map.empty),
               emailCache = Map.empty\<rparr>"
  have srcs: "Sources c3 = (case config of None \<Rightarrow> [] | Some c \<Rightarrow> Sources c)"
    by (simp add: c3_def c2_def c1_def c_def split: option.splits)
  have run: "NewManager eng builtinFS config =
      (case AddSource eng \<lparr>Name = ''built-in'', FS = builtinFS\<rparr> m0 of
           (Some err, m') \<Rightarrow> Inl (AddBuiltinFailed err)
         | (None, m') \<Rightarrow> NewManager_loop eng (Sources c3) m')"
    unfolding NewManager_def Let_def c_def [symmetric] c1_def [symmetric] c2_def [symmetric]
      c3_def [symmetric] m0_def [symmetric] ..
  obtain r m1 where add: "AddSource eng \<lparr>Name = ''built-in'', FS = builtinFS\<rparr> m0 = (r, m1)"
    by (cases "AddSource eng \<lparr>Name = ''built-in'', FS = builtinFS\<rparr> m0")
  from assms run add have "r = None" and "NewManager_loop eng (Sources c3) m1 = Inr m"
    by (auto split: option.splits)
  with add srcs show ?thesis unfolding m0_def by metis
qed


lemma lastDef_concat_Some:
  assumes "\<exists>u \<in> set us. n \<in> set (map fst (g u))"
  shows "lastDef (concat (map g us)) n \<noteq> None"
  using assms by (auto simp: lastDef_None)

text \<open>
  Against C9 as stated: the built-in source has \<^verbatim>\<open>components/x.html\<close> with the body
  \<^verbatim>\<open>old x\<close>, and the one configured source has a \<^verbatim>\<open>components/x.html\<close> that
  consists of a \<^verbatim>\<open>{{define}}\<close> block only. The manager is constructed, the
  configured source declares \<^verbatim>\<open>component:x\<close>, and the base collection holds the
  built-in definition.
\<close>

theorem NewManager_builtin_first_counterexample:
  "\<not> isl (NewManager toy fs_base config2 :: error + string Manager)
   \<and> declares toy src_define_only FormatHTML ''component:x''
   \<and> lastDef (sourceDecls toy \<lparr>Name = ''built-in'', FS = fs_base\<rparr> FormatHTML) ''component:x''
       = Some ''old x''
   \<and> baseTemplates (projr (NewManager toy fs_base config2)) FormatHTML ''component:x''
       = Some ''old x''"
  by code_simp

text \<open>
  C9, as amended. Every manager that \<^verbatim>\<open>NewManager\<close> returns has the built-in source
  as the first of its sources, followed by the configured sources in their order, so
  the registry is not empty. Its base collections are the rebuild over exactly these
  sources, so an identifier a configured source declares with a body that is not empty
  has the definition the configured sources give it, whatever the built-in source
  declares; and a document one of the configured sources holds resolves as it would
  without the built-in source. (A configured file whose own body is empty does not
  replace a built-in definition.)
\<close>

theorem NewManager_builtin_first:
  assumes "NewManager eng builtinFS config = Inr m"
      and "user = (case config of None \<Rightarrow> [] | Some c \<Rightarrow> Sources c)"
  shows "sources m = \<lparr>Name = ''built-in'', FS = builtinFS\<rparr> # user
       \<and> sources m \<noteq> []
       \<and> emailCache m = Map.empty
       \<and> baseTemplates m format ident
           = finalDef eng (concat (map (\<lambda>s. sourceDecls eng s format) (sources m))) ident
       \<and> ((\<exists>u \<in> set user. declares_body eng u format ident)
            \<longrightarrow> baseTemplates m format ident
                = lastDef (nonempty eng (concat (map (\<lambda>s. sourceDecls eng s format) user))) ident)
       \<and> ((\<exists>u \<in> set user. \<exists>c. ReadFile (FS u) (emailFile name format) = Inr c)
            \<longrightarrow> fst (getEmailTemplate eng name layout format m)
                = fst (getEmailTemplate eng name layout format (m\<lparr>sources := user\<rparr>)))"
proof -
  let ?b = "\<lparr>Name = ''built-in'', FS = builtinFS\<rparr>"
  from NewManager_Inr [OF assms(1)] obtain m1 p l th where
    add: "AddSource eng ?b
             \<lparr>processor = p, defaultLayout = l, sources = [], theme = th,
              baseTemplates = (\<lambda>format. Map.empty), emailCache = Map.empty\<rparr> = (None, m1)"
    and loop: "NewManager_loop eng user m1 = Inr m"
    unfolding assms(2) by blast
  note ok1 = AddSource_ok [OF add]
  have s1: "sources m1 = [?b]" and c1: "emailCache m1 = Map.empty"
    and b1: "baseTemplates m1 = (\<lambda>f. define_all eng Map.empty
             (concat (map (\<lambda>t. sourceDecls eng t f) (sources m1))))"
    using ok1 by simp_all
  note ok = NewManager_loop_ok [OF loop c1 b1]
  have srcs: "sources m = ?b # user" using ok s1 by simp
  have cache: "emailCache m = Map.empty" using ok by simp
  have base: "baseTemplates m format ident
           = finalDef eng (concat (map (\<lambda>s. sourceDecls eng s format) (sources m))) ident"
    using ok by (simp add: define_all_empty)
  have ov: "baseTemplates m format ident
                = lastDef (nonempty eng (concat (map (\<lambda>s. sourceDecls eng s format) user))) ident"
    if "\<exists>u \<in> set user. declares_body eng u format ident"
  proof -
    let ?U = "concat (map (\<lambda>s. sourceDecls eng s format) user)"
    from that have "lastDef (concat (map (\<lambda>s. nonempty eng (sourceDecls eng s format)) user)) ident
        \<noteq> None"
      unfolding declares_body_def by (rule lastDef_concat_Some)
    then obtain v where v: "lastDef (nonempty eng ?U) ident = Some v"
      unfolding nonempty_concat by blast
    have "lastDef (nonempty eng (sourceDecls eng ?b format @ ?U)) ident = Some v"
      unfolding nonempty_append lastDef_append v by simp
    then show ?thesis
      unfolding base srcs v by (simp add: finalDef_def)
  qed
  have doc: "fst (getEmailTemplate eng name layout format m)
                = fst (getEmailTemplate eng name layout format (m\<lparr>sources := user\<rparr>))"
    if "\<exists>u \<in> set user. \<exists>c. ReadFile (FS u) (emailFile name format) = Inr c"
  proof -
    from that obtain before u after where
      split: "user = before @ u # after"
      and u: "\<exists>c. ReadFile (FS u) (emailFile name format) = Inr c"
      and after: "\<forall>t \<in> set after. \<not> (\<exists>c. ReadFile (FS t) (emailFile name format) = Inr c)"
      using split_list_last_prop [of user "\<lambda>u. \<exists>c. ReadFile (FS u) (emailFile name format) = Inr c"]
      by blast
    from u obtain c where rd: "ReadFile (FS u) (emailFile name format) = Inr c" by blast
    from after have none: "\<forall>t \<in> set after. \<forall>c. ReadFile (FS t) (emailFile name format) \<noteq> Inr c"
      by blast
    have a: "getEmailTemplate_loop eng name (emailFile name format) (baseTemplates m format)
            ((?b # before) @ u # after) (length ((?b # before) @ u # after))
        = getEmailTemplate_loop eng name (emailFile name format) (baseTemplates m format)
            (before @ u # after) (length (before @ u # after))"
      unfolding getEmailTemplate_loop_found [OF rd none] ..
    have sel: "sources (m\<lparr>sources := X\<rparr>) = X"
      "baseTemplates (m\<lparr>sources := X\<rparr>) = baseTemplates m"
      "emailCache (m\<lparr>sources := X\<rparr>) = emailCache m" for X
      by simp_all
    have s': "sources m = (?b # before) @ u # after" using srcs split by simp
    show ?thesis
      unfolding fst_getEmailTemplate sel s' a split ..
  qed
  from srcs have ne: "sources m \<noteq> []" by simp
  from ov have ov': "(\<exists>u \<in> set user. declares_body eng u format ident)
            \<longrightarrow> baseTemplates m format ident
                = lastDef (nonempty eng (concat (map (\<lambda>s. sourceDecls eng s format) user))) ident" ..
  from doc have doc': "(\<exists>u \<in> set user. \<exists>c. ReadFile (FS u) (emailFile name format) = Inr c)
            \<longrightarrow> fst (getEmailTemplate eng name layout format m)
                = fst (getEmailTemplate eng name layout format (m\<lparr>sources := user\<rparr>))" ..
  show ?thesis
    by (intro conjI) (fact srcs ne cache base ov' doc')+
qed

theorem NewManager_builtin_first_witness:
  "\<not> isl (NewManager toy fs_stock config1 :: error + string Manager)
   \<and> sources manager1 = [\<lparr>Name = ''built-in'', FS = fs_stock\<rparr>, src_custom]
   \<and> lastDef (sourceDecls toy \<lparr>Name = ''built-in'', FS = fs_stock\<rparr> FormatHTML) ''component:alert''
       = Some ''stock alert''
   \<and> baseTemplates manager1 FormatHTML ''component:alert'' = Some ''custom alert''
   \<and> ReadFile fs_stock (emailFile ''welcome'' FormatText) = Inr ''@content|stock welcome''
   \<and> fst (getEmailTemplate toy ''welcome'' ''base'' FormatText manager1)
       = fst (getEmailTemplate toy ''welcome'' ''base'' FormatText (manager1\<lparr>sources := [src_custom]\<rparr>))
   \<and> fst (RenderEmail toy ''welcome'' () [] manager1)
       = Inr \<lparr>Subject = [], Text = ''custom welcome'', HTML = []\<rparr>"
proof -
  have ok: "\<not> isl (NewManager toy fs_stock config1 :: error + string Manager)" by code_simp
  then have run: "NewManager toy fs_stock config1 = Inr manager1"
    by (simp add: manager1_def)
  have user: "[src_custom] = (case config1 of None \<Rightarrow> [] | Some c \<Rightarrow> Sources c)"
    by (simp add: config1_def)
  have d: "\<exists>u \<in> set [src_custom]. declares_body toy u FormatHTML ''component:alert''"
    by code_simp
  have v: "lastDef (nonempty toy (concat (map (\<lambda>s. sourceDecls toy s FormatHTML) [src_custom])))
      ''component:alert'' = Some ''custom alert''"
    by code_simp
  have w: "lastDef (sourceDecls toy \<lparr>Name = ''built-in'', FS = fs_stock\<rparr> FormatHTML) ''component:alert''
       = Some ''stock alert''"
    by code_simp
  have rb: "ReadFile fs_stock (emailFile ''welcome'' FormatText) = Inr ''@content|stock welcome''"
    by code_simp
  have ru: "ReadFile (FS src_custom) (emailFile ''welcome'' FormatText) = Inr ''@content|custom welcome''"
    by code_simp
  then have e: "\<exists>u \<in> set [src_custom]. \<exists>c. ReadFile (FS u) (emailFile ''welcome'' FormatText) = Inr c"
    by simp
  have r: "fst (RenderEmail toy ''welcome'' () [] manager1)
       = Inr \<lparr>Subject = [], Text = ''custom welcome'', HTML = []\<rparr>"
    by code_simp
  note th = NewManager_builtin_first [OF run user, where format = FormatHTML
      and ident = "''component:alert''" and name = "''welcome''" and layout = "''base''"]
  note th' = NewManager_builtin_first [OF run user, where format = FormatText
      and ident = "''component:alert''" and name = "''welcome''" and layout = "''base''"]
  from th have a: "sources manager1 = [\<lparr>Name = ''built-in'', FS = fs_stock\<rparr>, src_custom]"
    by blast
  from th d have "baseTemplates manager1 FormatHTML ''component:alert''
      = lastDef (nonempty toy (concat (map (\<lambda>s. sourceDecls toy s FormatHTML) [src_custom])))
          ''component:alert''"
    by blast
  with v have b: "baseTemplates manager1 FormatHTML ''component:alert'' = Some ''custom alert''"
    by (simp only:)
  from th' e have c: "fst (getEmailTemplate toy ''welcome'' ''base'' FormatText manager1)
       = fst (getEmailTemplate toy ''welcome'' ''base'' FormatText (manager1\<lparr>sources := [src_custom]\<rparr>))"
    by blast
  from ok a w b rb c r show ?thesis by simp
qed

end
